theory Spec2Isabelle
  imports Complex_Main
begin

section \<open>The EdenAI text generation service (src/services/edenAITextService.ts)\<close>

text \<open>
  A shallow embedding of the four exported operations \<^verbatim>\<open>generateText\<close>, \<^verbatim>\<open>chat\<close>,
  \<^verbatim>\<open>generateTextWithRetry\<close> and \<^verbatim>\<open>parseJSONResponse\<close>.

  Conventions of the model:
  \<^item> A JavaScript string is a \<open>string\<close>: one \<open>char\<close> per UTF-16 code unit, for code units
    below 256. \<^verbatim>\<open>length\<close> is the list length.
  \<^item> A value that came out of \<^verbatim>\<open>response.json()\<close> is a \<open>json\<close>; \<^verbatim>\<open>undefined\<close> is
    \<open>None\<close> of \<open>json option\<close>. Of a number only its being zero is ever observed.
  \<^item> The response object \<^verbatim>\<open>data\<close> is the list of its own properties in the order
    \<^verbatim>\<open>Object.keys\<close> enumerates them; \<^verbatim>\<open>data[k]\<close> is \<open>map_of data k\<close>. Properties
    inherited from \<^verbatim>\<open>Object.prototype\<close> are outside the model, and so is a body that
    is valid JSON but not an object (\<^verbatim>\<open>data\<close> has the type \<^verbatim>\<open>EdenAITextResponse\<close>).
  \<^item> A thrown \<^verbatim>\<open>Error\<close> is a value of \<open>error\<close>, one constructor per \<^verbatim>\<open>throw\<close>
    of the file; an \<^verbatim>\<open>async\<close> function returns \<open>error + 'a\<close>, \<open>Inl\<close> being the rejection.
  \<^item> The effects are recorded in a trace of events, oldest first. The network is a
    function \<open>net\<close>: \<open>net k req\<close> is what the \<open>k\<close>-th \<^verbatim>\<open>fetch\<close> of the run (counted from 0)
    yields when it sends \<open>req\<close>. Of the console output the trace keeps the
    \<^verbatim>\<open>console.log\<close> lines that announce a request, an attempt and the fallback; the
    diagnostics written with \<^verbatim>\<open>console.error\<close> and \<^verbatim>\<open>console.warn\<close> are left out.
\<close>

subsection \<open>JavaScript values\<close>

datatype json =
    JNull
  | JBool bool
  | JNum rat
  | JStr string
  | JArr "json list"
  | JObj "(string \<times> json) list"

type_synonym object = "(string \<times> json) list"

text \<open>\<^verbatim>\<open>ToBoolean\<close>: \<^verbatim>\<open>null\<close>, \<^verbatim>\<open>false\<close>, \<^verbatim>\<open>0\<close> and \<^verbatim>\<open>""\<close> are falsy, and so is
  \<^verbatim>\<open>undefined\<close>.\<close>

fun truthy :: "json \<Rightarrow> bool" where
  "truthy JNull = False"
| "truthy (JBool b) = b"
| "truthy (JNum n) = (n \<noteq> 0)"
| "truthy (JStr s) = (s \<noteq> [])"
| "truthy (JArr xs) = True"
| "truthy (JObj kvs) = True"

fun truthyOpt :: "json option \<Rightarrow> bool" where
  "truthyOpt None = False"
| "truthyOpt (Some v) = truthy v"

text \<open>\<^verbatim>\<open>v.name\<close> for a \<open>v\<close> that is neither \<^verbatim>\<open>null\<close> nor \<^verbatim>\<open>undefined\<close>, for the names
  the file reads (\<^verbatim>\<open>generated_text\<close>, \<^verbatim>\<open>status\<close>, \<^verbatim>\<open>error\<close>, \<^verbatim>\<open>message\<close>): a
  primitive or an array has none of them.\<close>

fun field :: "json \<Rightarrow> string \<Rightarrow> json option" where
  "field (JObj kvs) name = map_of kvs name"
| "field v name = None"

text \<open>\<^verbatim>\<open>v?.name\<close>: \<^verbatim>\<open>undefined\<close> when \<open>v\<close> is \<^verbatim>\<open>undefined\<close> or \<^verbatim>\<open>null\<close>.\<close>

fun optField :: "json option \<Rightarrow> string \<Rightarrow> json option" where
  "optField None name = None"
| "optField (Some JNull) name = None"
| "optField (Some v) name = field v name"

text \<open>\<^verbatim>\<open>a || b\<close> with a defined right operand.\<close>

definition orElse :: "json option \<Rightarrow> json \<Rightarrow> json" where
  "orElse a b = (case a of Some v \<Rightarrow> (if truthy v then v else b) | None \<Rightarrow> b)"

text \<open>The white space of \<^verbatim>\<open>String.prototype.trim\<close> and of the regular expression class
  \<^verbatim>\<open>\s\<close>, among the code units below 256: tab, line feed, vertical tab, form feed,
  carriage return, space and the no-break space.\<close>

definition isWhiteSpace :: "char \<Rightarrow> bool" where
  "isWhiteSpace c = (c \<in> {CHR 0x09, CHR 0x0A, CHR 0x0B, CHR 0x0C, CHR 0x0D, CHR 0x20, CHR 0xA0})"

definition trim :: "string \<Rightarrow> string" where
  "trim s = rev (dropWhile isWhiteSpace (rev (dropWhile isWhiteSpace s)))"

text \<open>\<^verbatim>\<open>s.includes(pat)\<close>.\<close>

fun startsWith :: "string \<Rightarrow> string \<Rightarrow> bool" where
  "startsWith s [] = True"
| "startsWith [] (p # ps) = False"
| "startsWith (c # cs) (p # ps) = (c = p \<and> startsWith cs ps)"

fun includesStr :: "string \<Rightarrow> string \<Rightarrow> bool" where
  "includesStr [] pat = (pat = [])"
| "includesStr (c # cs) pat = (startsWith (c # cs) pat \<or> includesStr cs pat)"

subsection \<open>Requests, responses, errors and the trace\<close>

datatype role = User | Assistant | System

record chatMessage =
  role :: role
  content :: string

record options =
  provider :: "string option"
  temperature :: "rat option"
  maxTokens :: "int option"

record retryOptions = options +
  maxRetries :: "int option"

text \<open>The JSON body of the POST; \<open>prompt_text\<close> is its field \<^verbatim>\<open>text\<close> and
  \<open>req_temperature\<close> its field \<^verbatim>\<open>temperature\<close>.\<close>

record request =
  providers :: string
  prompt_text :: string
  chatbot_global_action :: string
  previous_history :: "(role \<times> string) list"
  req_temperature :: rat
  max_tokens :: int

text \<open>What \<^verbatim>\<open>fetch\<close> resolves to: \<^verbatim>\<open>response.ok\<close>, \<^verbatim>\<open>response.status\<close>, the string
  \<^verbatim>\<open>response.text()\<close> gives, and what \<^verbatim>\<open>response.json()\<close> gives (\<open>Inl\<close> when it
  rejects). \<open>Rejected\<close> is a \<^verbatim>\<open>fetch\<close> that rejects.\<close>

record response =
  ok :: bool
  status :: int
  body_text :: string
  body_json :: "string + object"

datatype fetch_outcome = Rejected string | Resolved response

type_synonym network = "nat \<Rightarrow> request \<Rightarrow> fetch_outcome"

datatype error =
    ApiKeyNotConfigured
  | ApiError int string
  | NoProviderResponse string "object option"
  | ProviderError json
  | EmptyResponse
  | RetriesFailed
  | EmptyInput
  | InvalidJson
  | Thrown string

text \<open>
  The constructors are the \<^verbatim>\<open>throw\<close> sites:
  \<^item> \<open>ApiKeyNotConfigured\<close>: \<^verbatim>\<open>'EdenAI API key is not configured'\<close>;
  \<^item> \<open>ApiError status errorText\<close>: \<^verbatim>\<open>`EdenAI API error: ${response.status} - ${errorText}`\<close>
    (the spec's TransportError);
  \<^item> \<open>NoProviderResponse provider data\<close>: \<^verbatim>\<open>`No response from provider: ${provider}`\<close>, in
    \<^verbatim>\<open>generateText\<close> followed by a rendering of \<open>data\<close>;
  \<^item> \<open>ProviderError v\<close>: \<^verbatim>\<open>`Provider error: ${v}`\<close>, \<open>v\<close> being the value interpolated;
  \<^item> \<open>EmptyResponse\<close>: \<^verbatim>\<open>'Empty response from AI provider'\<close>;
  \<^item> \<open>RetriesFailed\<close>: \<^verbatim>\<open>'Failed to generate text after retries'\<close>;
  \<^item> \<open>EmptyInput\<close>: \<^verbatim>\<open>'Empty response from AI - cannot parse JSON'\<close>;
  \<^item> \<open>InvalidJson\<close>: \<^verbatim>\<open>'Invalid JSON response from AI'\<close> (the spec's MalformedJsonError);
  \<^item> \<open>Thrown reason\<close>: an exception of the platform (a rejected \<^verbatim>\<open>fetch\<close> or
    \<^verbatim>\<open>response.json()\<close>, a \<^verbatim>\<open>TypeError\<close>).
\<close>

datatype event =
    ConsoleRequest string rat int nat
  | Fetch request
  | ConsoleAttempt int int
  | Sleep nat
  | ConsoleFallback

text \<open>
  \<^item> \<open>ConsoleRequest provider temperature maxTokens n\<close>: lines 50 to 54, \<open>n\<close> the prompt length;
  \<^item> \<open>Fetch req\<close>: the POST of line 61 or 166;
  \<^item> \<open>ConsoleAttempt attempt maxRetries\<close>: line 228;
  \<^item> \<open>Sleep delay\<close>: the \<^verbatim>\<open>setTimeout(resolve, delay)\<close> awaited at line 235, with the
    delay it is given, in milliseconds;
  \<^item> \<open>ConsoleFallback\<close>: line 244.
\<close>

fun isFetch :: "event \<Rightarrow> bool" where
  "isFetch (Fetch req) = True"
| "isFetch e = False"

definition fetchCount :: "event list \<Rightarrow> nat" where
  "fetchCount w = length (filter isFetch w)"

subsection \<open>generateText\<close>

definition DEFAULT_PROVIDER :: string where
  "DEFAULT_PROVIDER = ''openai/gpt-4o-mini''"

text \<open>\<^verbatim>\<open>!EDENAI_API_KEY\<close> is false.\<close>

definition configured :: "string option \<Rightarrow> bool" where
  "configured apiKey = (case apiKey of None \<Rightarrow> False | Some k \<Rightarrow> k \<noteq> [])"

text \<open>\<^verbatim>\<open>provider.split('/')[0]\<close>.\<close>

definition baseProvider :: "string \<Rightarrow> string" where
  "baseProvider p = takeWhile (\<lambda>c. c \<noteq> CHR ''/'') p"

text \<open>\<^verbatim>\<open>Object.keys(data).filter(k => data[k]?.generated_text)\<close>.\<close>

definition availableProviders :: "object \<Rightarrow> string list" where
  "availableProviders data =
     filter (\<lambda>k. truthyOpt (optField (map_of data k) ''generated_text'')) (map fst data)"

text \<open>\<^verbatim>\<open>generatedText.trim().length === 0\<close> on a truthy \<^verbatim>\<open>generatedText\<close>: a value that
  is not a string has no method \<^verbatim>\<open>trim\<close>, and the call throws a \<^verbatim>\<open>TypeError\<close>.\<close>

fun trimmedEmpty :: "json \<Rightarrow> error + bool" where
  "trimmedEmpty (JStr s) = Inr (length (trim s) = 0)"
| "trimmedEmpty v = Inl (Thrown ''TypeError: generatedText.trim is not a function'')"

text \<open>Lines 87 to 130: from the parsed body to the text returned.\<close>

definition extractText :: "string \<Rightarrow> object \<Rightarrow> error + json" where
  "extractText p data =
     (let providerResponse = map_of data p;
          providerResponse =
            (if \<not> truthyOpt providerResponse \<and> CHR ''/'' \<in> set p
             then map_of data (baseProvider p) else providerResponse)
      in if \<not> truthyOpt providerResponse then
           (case availableProviders data of
              fallbackProvider # _ \<Rightarrow>
                Inr (orElse (optField (map_of data fallbackProvider) ''generated_text'') (JStr []))
            | [] \<Rightarrow> Inl (NoProviderResponse p (Some data)))
         else if optField providerResponse ''status'' = Some (JStr ''fail'')
                 \<or> truthyOpt (optField providerResponse ''error'')
         then Inl (ProviderError
                (orElse (optField (optField providerResponse ''error'') ''message'')
                   (JStr ''Unknown error'')))
         else
           (let generatedText = orElse (optField providerResponse ''generated_text'') (JStr [])
            in if \<not> truthy generatedText then Inl EmptyResponse
               else (case trimmedEmpty generatedText of
                       Inl e \<Rightarrow> Inl e
                     | Inr True \<Rightarrow> Inl EmptyResponse
                     | Inr False \<Rightarrow> Inr generatedText)))"

text \<open>Lines 77 to 130: what \<^verbatim>\<open>generateText\<close> makes of the outcome of its \<^verbatim>\<open>fetch\<close>.\<close>

definition generateTextResponse :: "string \<Rightarrow> fetch_outcome \<Rightarrow> error + json" where
  "generateTextResponse p outcome =
     (case outcome of
        Rejected reason \<Rightarrow> Inl (Thrown reason)
      | Resolved r \<Rightarrow>
          if \<not> ok r then Inl (ApiError (status r) (body_text r))
          else (case body_json r of
                  Inl reason \<Rightarrow> Inl (Thrown reason)
                | Inr data \<Rightarrow> extractText p data))"

definition generateRequest :: "string \<Rightarrow> options \<Rightarrow> request" where
  "generateRequest prompt opts =
     \<lparr> providers = (case provider opts of None \<Rightarrow> DEFAULT_PROVIDER | Some p \<Rightarrow> p),
       prompt_text = prompt,
       chatbot_global_action =
         ''You are a helpful AI assistant for resume optimization and career guidance.'',
       previous_history = [],
       req_temperature = (case temperature opts of None \<Rightarrow> 3 / 10 | Some t \<Rightarrow> t),
       max_tokens = (case maxTokens opts of None \<Rightarrow> 4000 | Some m \<Rightarrow> m) \<rparr>"

text \<open>Lines 36 to 131. The defaults of the destructuring apply to an absent option only.\<close>

definition generateText ::
  "string option \<Rightarrow> network \<Rightarrow> string \<Rightarrow> options \<Rightarrow> event list \<Rightarrow> (error + json) \<times> event list"
where
  "generateText apiKey net prompt opts w =
     (let req = generateRequest prompt opts;
          w1 = w @ [ConsoleRequest (providers req) (req_temperature req) (max_tokens req)
                      (length prompt)]
      in if \<not> configured apiKey then (Inl ApiKeyNotConfigured, w1)
         else (generateTextResponse (providers req) (net (fetchCount w1) req), w1 @ [Fetch req]))"

subsection \<open>chat\<close>

text \<open>Lines 182 to 206: what \<^verbatim>\<open>chat\<close> makes of the outcome of its \<^verbatim>\<open>fetch\<close>.\<close>

definition chatResponse :: "string \<Rightarrow> fetch_outcome \<Rightarrow> error + json" where
  "chatResponse p outcome =
     (case outcome of
        Rejected reason \<Rightarrow> Inl (Thrown reason)
      | Resolved r \<Rightarrow>
          if \<not> ok r then Inl (ApiError (status r) (body_text r))
          else (case body_json r of
                  Inl reason \<Rightarrow> Inl (Thrown reason)
                | Inr data \<Rightarrow>
                    (let providerResponse = map_of data p;
                         providerResponse =
                           (if \<not> truthyOpt providerResponse \<and> CHR ''/'' \<in> set p
                            then map_of data (baseProvider p) else providerResponse)
                     in if \<not> truthyOpt providerResponse then
                          (case availableProviders data of
                             k # _ \<Rightarrow>
                               Inr (orElse (optField (map_of data k) ''generated_text'') (JStr []))
                           | [] \<Rightarrow> Inl (NoProviderResponse p None))
                        else Inr (orElse (optField providerResponse ''generated_text'')
                                    (JStr [])))))"

text \<open>Lines 136 to 207. \<^verbatim>\<open>messages[messages.length - 1]\<close> is \<^verbatim>\<open>undefined\<close> for an
  empty history, and reading its \<^verbatim>\<open>content\<close> throws before anything is sent.\<close>

definition chat ::
  "string option \<Rightarrow> network \<Rightarrow> chatMessage list \<Rightarrow> options \<Rightarrow> event list \<Rightarrow> (error + json) \<times> event list"
where
  "chat apiKey net messages opts w =
     (if \<not> configured apiKey then (Inl ApiKeyNotConfigured, w)
      else
        (let systemMessage =
               (case find (\<lambda>m. role m = System) messages of None \<Rightarrow> [] | Some m \<Rightarrow> content m);
             previousHistory =
               map (\<lambda>m. (role m, content m)) (butlast (filter (\<lambda>m. role m \<noteq> System) messages))
         in case messages of
              [] \<Rightarrow> (Inl (Thrown ''TypeError: lastMessage is undefined''), w)
            | _ # _ \<Rightarrow>
                (let lastMessage = last messages;
                     req = \<lparr> providers =
                               (case provider opts of None \<Rightarrow> DEFAULT_PROVIDER | Some p \<Rightarrow> p),
                             prompt_text = content lastMessage,
                             chatbot_global_action =
                               (if systemMessage \<noteq> [] then systemMessage
                                else ''You are a helpful AI assistant.''),
                             previous_history = previousHistory,
                             req_temperature =
                               (case temperature opts of None \<Rightarrow> 3 / 10 | Some t \<Rightarrow> t),
                             max_tokens = (case maxTokens opts of None \<Rightarrow> 4000 | Some m \<Rightarrow> m) \<rparr>
                 in (chatResponse (providers req) (net (fetchCount w) req), w @ [Fetch req]))))"

subsection \<open>generateTextWithRetry\<close>

text \<open>How the \<^verbatim>\<open>for\<close> loop of lines 226 to 239 ends: by the \<^verbatim>\<open>return\<close> of line 229, or by
  running out of attempts, with \<^verbatim>\<open>lastError\<close> (\<open>None\<close> is \<^verbatim>\<open>null\<close>).\<close>

datatype loop_exit = Returned json | Exhausted "error option"

function attemptLoop ::
  "string option \<Rightarrow> network \<Rightarrow> string \<Rightarrow> options \<Rightarrow> int \<Rightarrow> int \<Rightarrow> nat \<Rightarrow> error option \<Rightarrow> event list
     \<Rightarrow> loop_exit \<times> event list"
where
  "attemptLoop apiKey net prompt generateOptions maxRetries' attempt delay lastError w =
     (if attempt \<le> maxRetries' then
        (case generateText apiKey net prompt generateOptions
                (w @ [ConsoleAttempt attempt maxRetries']) of
           (Inr text, w') \<Rightarrow> (Returned text, w')
         | (Inl err, w') \<Rightarrow>
             if attempt < maxRetries'
             then attemptLoop apiKey net prompt generateOptions maxRetries' (attempt + 1)
                    (delay * 2) (Some err) (w' @ [Sleep delay])
             else attemptLoop apiKey net prompt generateOptions maxRetries' (attempt + 1)
                    delay (Some err) w')
      else (Exhausted lastError, w))"
  by pat_completeness auto
termination
  by (relation "measure (\<lambda>(apiKey, net, prompt, generateOptions, maxRetries', attempt, rest).
                   nat (maxRetries' + 1 - attempt))") auto

definition FALLBACK_PROVIDER :: string where
  "FALLBACK_PROVIDER = ''google/gemini-1.5-flash''"

text \<open>\<^verbatim>\<open>generateOptions.provider || DEFAULT_PROVIDER\<close> of line 242.\<close>

definition currentProvider :: "options \<Rightarrow> string" where
  "currentProvider generateOptions =
     (case provider generateOptions of
        None \<Rightarrow> DEFAULT_PROVIDER
      | Some p \<Rightarrow> if p \<noteq> [] then p else DEFAULT_PROVIDER)"

text \<open>The destructuring of line 221: \<^verbatim>\<open>maxRetries\<close> with its default, and the rest of
  the options, \<^verbatim>\<open>generateOptions\<close>. \<^verbatim>\<open>maxRetries\<close> is an integer here.\<close>

definition maxRetriesOf :: "retryOptions \<Rightarrow> int" where
  "maxRetriesOf opts = (case maxRetries opts of None \<Rightarrow> 3 | Some n \<Rightarrow> n)"

definition generateOptionsOf :: "retryOptions \<Rightarrow> options" where
  "generateOptionsOf opts =
     \<lparr> provider = provider opts, temperature = temperature opts, maxTokens = maxTokens opts \<rparr>"

text \<open>The options of the call of lines 246 to 249.\<close>

definition fallbackOptions :: "retryOptions \<Rightarrow> options" where
  "fallbackOptions opts = (generateOptionsOf opts)\<lparr>provider := Some FALLBACK_PROVIDER\<rparr>"

text \<open>Lines 212 to 256.\<close>

definition generateTextWithRetry ::
  "string option \<Rightarrow> network \<Rightarrow> string \<Rightarrow> retryOptions \<Rightarrow> event list \<Rightarrow> (error + json) \<times> event list"
where
  "generateTextWithRetry apiKey net prompt opts w =
     (case attemptLoop apiKey net prompt (generateOptionsOf opts) (maxRetriesOf opts) 1 1000 None w of
        (Returned text, w') \<Rightarrow> (Inr text, w')
      | (Exhausted lastError, w') \<Rightarrow>
          (let thrown = Inl (case lastError of Some err \<Rightarrow> err | None \<Rightarrow> RetriesFailed)
           in if includesStr (currentProvider (generateOptionsOf opts)) ''openai'' then
                (case generateText apiKey net prompt (fallbackOptions opts)
                        (w' @ [ConsoleFallback]) of
                   (Inr text, w'') \<Rightarrow> (Inr text, w'')
                 | (Inl fallbackError, w'') \<Rightarrow> (thrown, w''))
              else (thrown, w')))"

subsection \<open>parseJSONResponse\<close>

text \<open>A character of the text against a character of the pattern \<^verbatim>\<open>/```json/gi\<close>: the flag
  \<^verbatim>\<open>i\<close> lets the four letters match their capitals as well.\<close>

fun ciEq :: "char \<Rightarrow> char \<Rightarrow> bool" where
  "ciEq c p =
     (c = p \<or> (c, p) \<in> {(CHR ''J'', CHR ''j''), (CHR ''S'', CHR ''s''),
                          (CHR ''O'', CHR ''o''), (CHR ''N'', CHR ''n'')})"

text \<open>A literal pattern matches at the start of the text.\<close>

fun matchesAt :: "(char \<Rightarrow> char \<Rightarrow> bool) \<Rightarrow> string \<Rightarrow> string \<Rightarrow> bool" where
  "matchesAt eq [] s = True"
| "matchesAt eq (p # ps) [] = False"
| "matchesAt eq (p # ps) (c # cs) = (eq c p \<and> matchesAt eq ps cs)"

text \<open>\<^verbatim>\<open>s.replace(/pat/g, '')\<close> for a literal, non-empty pattern: the matches are found from
  left to right, each search resuming after the match before it.\<close>

function removeAll :: "(char \<Rightarrow> char \<Rightarrow> bool) \<Rightarrow> string \<Rightarrow> string \<Rightarrow> string" where
  "removeAll eq pat [] = []"
| "removeAll eq pat (c # cs) =
     (if pat \<noteq> [] \<and> matchesAt eq pat (c # cs)
      then removeAll eq pat (drop (length pat) (c # cs))
      else c # removeAll eq pat cs)"
  by pat_completeness auto
termination
  by (relation "measure (\<lambda>(eq, pat, s). length s)") auto

text \<open>\<^verbatim>\<open>[\s\S]*\<close> followed by the closing character, against the text after the opening
  one: everything up to the last closing character.\<close>

definition greedyTo :: "char \<Rightarrow> string \<Rightarrow> string" where
  "greedyTo close rest = rev (dropWhile (\<lambda>c. c \<noteq> close) (rev rest))"

text \<open>The group 1 of the \<^verbatim>\<open>cleaned.match\<close> of line 274, whose pattern is
  \<^verbatim>\<open>\{[\s\S]*\}\<close> or else the same between brackets: the leftmost position where one
  of the two alternatives matches, the first alternative before the second.\<close>

fun jsonMatch :: "string \<Rightarrow> string option" where
  "jsonMatch [] = None"
| "jsonMatch (c # rest) =
     (if c = CHR ''{'' \<and> CHR ''}'' \<in> set rest then Some (c # greedyTo CHR ''}'' rest)
      else if c = CHR ''['' \<and> CHR '']'' \<in> set rest then Some (c # greedyTo CHR '']'' rest)
      else jsonMatch rest)"

text \<open>\<^verbatim>\<open>s.replace(/,\s*}/g, '}')\<close> and \<^verbatim>\<open>s.replace(/,\s*]/g, ']')\<close>.\<close>

function removeTrailingCommas :: "char \<Rightarrow> string \<Rightarrow> string" where
  "removeTrailingCommas close [] = []"
| "removeTrailingCommas close (c # cs) =
     (if c = CHR '','' \<and> (case dropWhile isWhiteSpace cs of [] \<Rightarrow> False | x # rest \<Rightarrow> x = close)
      then close # removeTrailingCommas close (tl (dropWhile isWhiteSpace cs))
      else c # removeTrailingCommas close cs)"
  by pat_completeness auto
termination
proof (relation "measure (\<lambda>(close, s). length s)")
  fix close :: char and c :: char and cs :: string
  have "length (dropWhile isWhiteSpace cs) \<le> length cs"
    by (rule length_dropWhile_le)
  then show "((close, tl (dropWhile isWhiteSpace cs)), (close, c # cs))
               \<in> measure (\<lambda>(close, s). length s)"
    by simp
qed simp_all

text \<open>Lines 261 to 300. \<^verbatim>\<open>JSON.parse\<close> belongs to the platform and is a parameter: \<open>None\<close>
  where it throws.\<close>

definition parseJSONResponse :: "(string \<Rightarrow> 'v option) \<Rightarrow> string \<Rightarrow> error + 'v" where
  "parseJSONResponse JSON_parse response =
     (if response = [] \<or> length (trim response) = 0 then Inl EmptyInput
      else
        (let cleaned = trim (removeAll (=) ''```'' (removeAll ciEq ''```json'' response));
             cleaned = (case jsonMatch cleaned of Some m \<Rightarrow> m | None \<Rightarrow> cleaned)
         in case JSON_parse cleaned of
              Some v \<Rightarrow> Inr v
            | None \<Rightarrow>
                (let fixed = removeTrailingCommas CHR '']'' (removeTrailingCommas CHR ''}'' cleaned)
                 in case JSON_parse fixed of Some v \<Rightarrow> Inr v | None \<Rightarrow> Inl InvalidJson)))"

section \<open>Notions used in the statements\<close>

text \<open>The value returned, or the error thrown, by a call of \<^verbatim>\<open>generateText\<close> entered when
  \<open>k\<close> requests have been sent (lemma \<open>generateText_eq\<close> below).\<close>

definition attemptOutcome ::
  "string option \<Rightarrow> network \<Rightarrow> string \<Rightarrow> options \<Rightarrow> nat \<Rightarrow> error + json"
where
  "attemptOutcome apiKey net prompt opts k =
     (if \<not> configured apiKey then Inl ApiKeyNotConfigured
      else generateTextResponse (providers (generateRequest prompt opts))
             (net k (generateRequest prompt opts)))"

text \<open>The events of one call of \<^verbatim>\<open>generateText\<close>.\<close>

definition callTrace :: "string option \<Rightarrow> string \<Rightarrow> options \<Rightarrow> event list" where
  "callTrace apiKey prompt opts =
     (let req = generateRequest prompt opts
      in ConsoleRequest (providers req) (req_temperature req) (max_tokens req) (length prompt)
           # (if configured apiKey then [Fetch req] else []))"

text \<open>The events of the failed attempt number \<open>a + j\<close> of \<open>n\<close> and of the wait after it, when
  the attempt number \<open>a\<close> waits for \<open>d\<close> milliseconds.\<close>

definition failedAttempt ::
  "string option \<Rightarrow> string \<Rightarrow> options \<Rightarrow> int \<Rightarrow> int \<Rightarrow> nat \<Rightarrow> nat \<Rightarrow> event list"
where
  "failedAttempt apiKey prompt opts n a d j =
     ConsoleAttempt (a + int j) n # callTrace apiKey prompt opts @ [Sleep (d * 2 ^ j)]"

text \<open>The delays awaited, the attempts announced and the calls for a provider in a trace.\<close>

fun delays :: "event list \<Rightarrow> nat list" where
  "delays [] = []"
| "delays (Sleep d # w) = d # delays w"
| "delays (e # w) = delays w"

fun attemptsLogged :: "event list \<Rightarrow> int list" where
  "attemptsLogged [] = []"
| "attemptsLogged (ConsoleAttempt a n # w) = a # attemptsLogged w"
| "attemptsLogged (e # w) = attemptsLogged w"

fun requestsTo :: "string \<Rightarrow> event list \<Rightarrow> nat" where
  "requestsTo p [] = 0"
| "requestsTo p (ConsoleRequest q t m l # w) = (if q = p then 1 else 0) + requestsTo p w"
| "requestsTo p (e # w) = requestsTo p w"

text \<open>A network that answers the \<open>k\<close>-th request with the \<open>k\<close>-th entry of a script, and is
  unreachable afterwards; an answer with status 200 and a given body.\<close>

definition scriptedNet :: "fetch_outcome list \<Rightarrow> network" where
  "scriptedNet script k req = (if k < length script then script ! k else Rejected ''Failed to fetch'')"

definition okBody :: "object \<Rightarrow> fetch_outcome" where
  "okBody data = Resolved \<lparr> ok = True, status = 200, body_text = [], body_json = Inr data \<rparr>"

definition noOptions :: options where
  "noOptions = \<lparr> provider = None, temperature = None, maxTokens = None \<rparr>"

definition noRetryOptions :: retryOptions where
  "noRetryOptions = \<lparr> provider = None, temperature = None, maxTokens = None, maxRetries = None \<rparr>"

text \<open>The entries of the examples: one with a text, one with a reported failure.\<close>

definition hiEntry :: json where
  "hiEntry = JObj [(''generated_text'', JStr ''hi'')]"

definition quotaEntry :: json where
  "quotaEntry = JObj [(''status'', JStr ''fail''), (''error'', JObj [(''message'', JStr ''quota exceeded'')])]"

text \<open>A text is blank when it has white space only.\<close>

definition blank :: "string \<Rightarrow> bool" where
  "blank s = (\<forall>c \<in> set s. isWhiteSpace c)"

text \<open>The response without its code fences, the text \<^verbatim>\<open>parseJSONResponse\<close> hands to the
  parser first, and the repaired text it hands to it after a failure (lemma
  \<open>parseJSONResponse_eq\<close> below).\<close>

definition cleanedText :: "string \<Rightarrow> string" where
  "cleanedText response = trim (removeAll (=) ''```'' (removeAll ciEq ''```json'' response))"

definition candidate :: "string \<Rightarrow> string" where
  "candidate response =
     (case jsonMatch (cleanedText response) of Some m \<Rightarrow> m | None \<Rightarrow> cleanedText response)"

definition repaired :: "string \<Rightarrow> string" where
  "repaired cleaned = removeTrailingCommas CHR '']'' (removeTrailingCommas CHR ''}'' cleaned)"

text \<open>The spec's word for the span selected is \<^emph>\<open>balanced\<close>: the span starts with an opening
  brace or bracket, its braces and brackets nest, each closed by its own kind, and the one
  that opens the span is closed by its last character. \<open>nests st s\<close> reads \<open>s\<close> with the
  stack \<open>st\<close> of the closing characters that are due.\<close>

fun nests :: "string \<Rightarrow> string \<Rightarrow> bool" where
  "nests st [] = (st = [])"
| "nests st (c # cs) =
     (if c = CHR ''{'' then nests (CHR ''}'' # st) cs
      else if c = CHR ''['' then nests (CHR '']'' # st) cs
      else if c = CHR ''}'' \<or> c = CHR '']''
      then (case st of
              [] \<Rightarrow> False
            | x # st' \<Rightarrow> x = c \<and> (if st' = [] then cs = [] else nests st' cs))
      else st \<noteq> [] \<and> nests st cs)"

definition specBalanced :: "string \<Rightarrow> bool" where
  "specBalanced s = nests [] s"

text \<open>A parser that accepts one text only.\<close>

definition parserOf :: "string \<Rightarrow> 'v \<Rightarrow> string \<Rightarrow> 'v option" where
  "parserOf good v s = (if s = good then Some v else None)"

section \<open>The response extractor\<close>

lemma availableProviders_first:
  assumes "map fst data = ks1 @ k # ks2"
    and "\<forall>k' \<in> set ks1. \<not> truthyOpt (optField (map_of data k') ''generated_text'')"
    and "truthyOpt (optField (map_of data k) ''generated_text'')"
  shows "\<exists>rest. availableProviders data = k # rest"
  using assms by (simp add: availableProviders_def filter_empty_conv[THEN iffD2])

lemma availableProviders_Nil:
  "availableProviders data = [] \<longleftrightarrow>
     (\<forall>k \<in> set (map fst data). \<not> truthyOpt (optField (map_of data k) ''generated_text''))"
  by (simp add: availableProviders_def filter_empty_conv)

lemma extractText_exact:
  "map_of data p = Some e \<Longrightarrow> truthy e \<Longrightarrow> extractText p data = extractText p [(p, e)]"
  by (simp add: extractText_def Let_def)

lemma extractText_base:
  "\<not> truthyOpt (map_of data p) \<Longrightarrow> CHR ''/'' \<in> set p \<Longrightarrow>
   map_of data (baseProvider p) = Some e \<Longrightarrow> truthy e \<Longrightarrow>
   extractText p data = extractText (baseProvider p) [(baseProvider p, e)]"
  by (simp add: extractText_def Let_def)

lemma extractText_unmatched:
  assumes "\<not> truthyOpt (map_of data p)"
    and "CHR ''/'' \<in> set p \<longrightarrow> \<not> truthyOpt (map_of data (baseProvider p))"
  shows "extractText p data =
     (case availableProviders data of
        k # _ \<Rightarrow> Inr (orElse (optField (map_of data k) ''generated_text'') (JStr []))
      | [] \<Rightarrow> Inl (NoProviderResponse p (Some data)))"
  using assms by (auto simp add: extractText_def Let_def)

lemma extractText_scan:
  assumes "\<not> truthyOpt (map_of data p)"
    and "CHR ''/'' \<in> set p \<longrightarrow> \<not> truthyOpt (map_of data (baseProvider p))"
    and "map fst data = ks1 @ k # ks2"
    and "\<forall>k' \<in> set ks1. \<not> truthyOpt (optField (map_of data k') ''generated_text'')"
    and "optField (map_of data k) ''generated_text'' = Some t" and "truthy t"
  shows "extractText p data = Inr t"
proof -
  from assms(3-6) obtain rest where "availableProviders data = k # rest"
    using availableProviders_first[of data ks1 k ks2] by auto
  with assms show ?thesis
    by (simp add: extractText_unmatched orElse_def)
qed


lemma optField_truthy: "truthy e \<Longrightarrow> optField (Some e) name = field e name"
  by (cases e) simp_all

lemma trim_empty: "length (trim s) = 0 \<longleftrightarrow> blank s"
proof (cases "dropWhile isWhiteSpace s = []")
  case True
  have "trim s = []"
    unfolding trim_def True by simp
  moreover have "blank s"
    using True by (simp add: blank_def dropWhile_eq_Nil_conv)
  ultimately show ?thesis by simp
next
  case False
  then have "\<not> isWhiteSpace (hd (dropWhile isWhiteSpace s))"
    by (rule hd_dropWhile)
  moreover have "hd (dropWhile isWhiteSpace s) \<in> set (dropWhile isWhiteSpace s)"
    using False by simp
  ultimately have "dropWhile isWhiteSpace (rev (dropWhile isWhiteSpace s)) \<noteq> []"
    by (auto simp add: dropWhile_eq_Nil_conv)
  moreover have "\<not> blank s"
    using False by (simp add: blank_def dropWhile_eq_Nil_conv)
  ultimately show ?thesis
    by (simp add: trim_def)
qed

text \<open>What lines 113 to 130 make of an entry that was matched.\<close>

lemma extractText_matched:
  assumes "map_of data p = Some e" and "truthy e"
  shows "extractText p data =
     (if field e ''status'' = Some (JStr ''fail'') \<or> truthyOpt (field e ''error'')
      then Inl (ProviderError (orElse (optField (field e ''error'') ''message'') (JStr ''Unknown error'')))
      else (case orElse (field e ''generated_text'') (JStr []) of
              JStr s \<Rightarrow> if blank s then Inl EmptyResponse else Inr (JStr s)
            | v \<Rightarrow> if truthy v then Inl (Thrown ''TypeError: generatedText.trim is not a function'')
                   else Inl EmptyResponse))"
proof -
  have blank_Nil: "blank []" by (simp add: blank_def)
  show ?thesis
    using assms
    by (cases "orElse (field e ''generated_text'') (JStr [])")
       (auto simp add: extractText_def Let_def optField_truthy trim_empty[simplified] blank_Nil)
qed

lemma extractText_matched_not_NoProviderResponse:
  assumes "map_of data p = Some e" and "truthy e"
  shows "extractText p data \<noteq> Inl (NoProviderResponse q d)"
  unfolding extractText_matched[OF assms]
  by (cases "orElse (field e ''generated_text'') (JStr [])") auto

lemma extractText_NoProviderResponse:
  "(\<exists>q d. extractText p data = Inl (NoProviderResponse q d)) \<longleftrightarrow>
     \<not> truthyOpt (map_of data p)
     \<and> (CHR ''/'' \<in> set p \<longrightarrow> \<not> truthyOpt (map_of data (baseProvider p)))
     \<and> (\<forall>k \<in> set (map fst data). \<not> truthyOpt (optField (map_of data k) ''generated_text''))"
  (is "?L \<longleftrightarrow> ?U \<and> ?V \<and> ?N")
proof (cases "?U \<and> ?V")
  case True
  show ?thesis
  proof (cases "availableProviders data")
    case Nil
    with True show ?thesis
      using availableProviders_Nil[of data] by (simp add: extractText_unmatched)
  next
    case (Cons k ks)
    with True show ?thesis
      using availableProviders_Nil[of data] by (simp add: extractText_unmatched)
  qed
next
  case False
  show ?thesis
  proof (cases "truthyOpt (map_of data p)")
    case True
    then obtain e where "map_of data p = Some e" "truthy e"
      by (cases "map_of data p") auto
    then have "\<not> ?L"
      using extractText_matched_not_NoProviderResponse by blast
    with True show ?thesis by blast
  next
    case unmatched: False
    with False obtain e where e: "CHR ''/'' \<in> set p" "map_of data (baseProvider p) = Some e" "truthy e"
      by (cases "map_of data (baseProvider p)") auto
    have "extractText (baseProvider p) [(baseProvider p, e)] \<noteq> Inl (NoProviderResponse q d)" for q d
      using e(3) by (intro extractText_matched_not_NoProviderResponse[of _ _ e]) simp_all
    then have "\<not> ?L"
      using extractText_base[OF unmatched e] by simp
    with False show ?thesis by blast
  qed
qed

text \<open>The base name: the part of the key before its first \<^verbatim>\<open>/\<close>.\<close>

lemma baseProvider_no_slash: "CHR ''/'' \<notin> set (baseProvider p)"
  using set_takeWhileD[of "CHR ''/''" "\<lambda>c. c \<noteq> CHR ''/''" p]
  by (auto simp add: baseProvider_def)

lemma baseProvider_split:
  assumes "CHR ''/'' \<in> set p"
  shows "\<exists>rest. p = baseProvider p @ CHR ''/'' # rest"
proof -
  let ?P = "\<lambda>c. c \<noteq> CHR ''/''"
  from assms have ne: "dropWhile ?P p \<noteq> []"
    by (auto simp add: dropWhile_eq_Nil_conv)
  then have "\<not> ?P (hd (dropWhile ?P p))"
    by (rule hd_dropWhile)
  with ne obtain rest where "dropWhile ?P p = CHR ''/'' # rest"
    by (cases "dropWhile ?P p") auto
  then have "p = takeWhile ?P p @ CHR ''/'' # rest"
    using takeWhile_dropWhile_id[of ?P p] by simp
  then show ?thesis
    unfolding baseProvider_def by blast
qed

lemma baseProvider_whole: "CHR ''/'' \<notin> set p \<Longrightarrow> baseProvider p = p"
  by (auto simp add: baseProvider_def takeWhile_eq_all_conv)

text \<open>C3. The extractor resolves the entry by the exact key first, then, for a key with a
  \<^verbatim>\<open>/\<close>, by the base name before it, then by the first key in the order of the response whose
  entry exposes generated text; it fails with \<open>NoProviderResponse\<close> exactly when none of the
  three finds anything. An entry found by the exact key or the base name alone decides the
  result, which is that of the response made of this entry only. The base name
  \<open>baseProvider p\<close> is the part of the key before its first \<^verbatim>\<open>/\<close>: it has no
  \<^verbatim>\<open>/\<close>, and the key is the base name, a \<^verbatim>\<open>/\<close> and a rest. The two examples of the
  specification evaluate to \<^verbatim>\<open>"hi"\<close>, and for the key \<^verbatim>\<open>mistral/large\<close> the entry under
  \<^verbatim>\<open>mistral\<close> is the one taken, before any scan, also when the entry under the exact key
  is \<^verbatim>\<open>null\<close> or another falsy value (\<^verbatim>\<open>null\<close>, \<^verbatim>\<open>false\<close>, \<^verbatim>\<open>0\<close> and
  \<^verbatim>\<open>""\<close> are the falsy ones); the scan passes over the entries without a text.\<close>

theorem extraction_resolution:
  "(\<forall>e. map_of data p = Some e \<and> truthy e \<longrightarrow> extractText p data = extractText p [(p, e)])
   \<and> (\<forall>e. \<not> truthyOpt (map_of data p) \<and> CHR ''/'' \<in> set p
          \<and> map_of data (baseProvider p) = Some e \<and> truthy e \<longrightarrow>
          extractText p data = extractText (baseProvider p) [(baseProvider p, e)])
   \<and> (\<forall>ks1 k ks2 t.
          \<not> truthyOpt (map_of data p)
          \<and> (CHR ''/'' \<in> set p \<longrightarrow> \<not> truthyOpt (map_of data (baseProvider p)))
          \<and> map fst data = ks1 @ k # ks2
          \<and> (\<forall>k' \<in> set ks1. \<not> truthyOpt (optField (map_of data k') ''generated_text''))
          \<and> optField (map_of data k) ''generated_text'' = Some t \<and> truthy t \<longrightarrow>
          extractText p data = Inr t)
   \<and> ((\<exists>q d. extractText p data = Inl (NoProviderResponse q d)) \<longleftrightarrow>
          \<not> truthyOpt (map_of data p)
          \<and> (CHR ''/'' \<in> set p \<longrightarrow> \<not> truthyOpt (map_of data (baseProvider p)))
          \<and> (\<forall>k \<in> set (map fst data). \<not> truthyOpt (optField (map_of data k) ''generated_text'')))
   \<and> extractText ''openai/gpt-4o-mini'' [(''openai/gpt-4o-mini'', hiEntry)] = Inr (JStr ''hi'')
   \<and> extractText ''openai/gpt-4o-mini'' [(''openai'', hiEntry)] = Inr (JStr ''hi'')
   \<and> CHR ''/'' \<notin> set (baseProvider p)
   \<and> (CHR ''/'' \<in> set p \<longrightarrow> (\<exists>rest. p = baseProvider p @ CHR ''/'' # rest))
   \<and> (CHR ''/'' \<notin> set p \<longrightarrow> baseProvider p = p)
   \<and> baseProvider ''openai/gpt-4o-mini'' = ''openai''
   \<and> baseProvider ''mistral/large/v2'' = ''mistral''
   \<and> extractText ''mistral/large'' [(''openai'', hiEntry), (''mistral'', quotaEntry)]
       = Inl (ProviderError (JStr ''quota exceeded''))
   \<and> extractText ''mistral/large'' [(''mistral/large'', JNull), (''mistral'', hiEntry)]
       = Inr (JStr ''hi'')
   \<and> (truthy v \<longleftrightarrow> v \<notin> {JNull, JBool False, JNum 0, JStr []})
   \<and> extractText ''mistral/large'' [(''mistral/large'', JNum 0), (''mistral'', hiEntry)]
       = Inr (JStr ''hi'')
   \<and> extractText ''mistral/large'' [(''mistral/large'', JNum 1), (''mistral'', hiEntry)]
       = Inl EmptyResponse
   \<and> extractText ''mistral/large''
         [(''a'', JObj [(''generated_text'', JStr [])]), (''b'', JNull), (''c'', hiEntry),
          (''d'', JObj [(''generated_text'', JStr ''later'')])]
       = Inr (JStr ''hi'')
   \<and> extractText ''mistral/large'' [(''a'', JObj [(''generated_text'', JStr [])]), (''b'', JNull)]
       = Inl (NoProviderResponse ''mistral/large''
               (Some [(''a'', JObj [(''generated_text'', JStr [])]), (''b'', JNull)]))"
proof -
  have exact: "map_of data p = Some e \<and> truthy e \<longrightarrow> extractText p data = extractText p [(p, e)]" for e
    using extractText_exact[of data p e] by blast
  have base: "\<not> truthyOpt (map_of data p) \<and> CHR ''/'' \<in> set p
      \<and> map_of data (baseProvider p) = Some e \<and> truthy e \<longrightarrow>
      extractText p data = extractText (baseProvider p) [(baseProvider p, e)]" for e
    using extractText_base[of data p e] by blast
  have scan: "\<not> truthyOpt (map_of data p)
      \<and> (CHR ''/'' \<in> set p \<longrightarrow> \<not> truthyOpt (map_of data (baseProvider p)))
      \<and> map fst data = ks1 @ k # ks2
      \<and> (\<forall>k' \<in> set ks1. \<not> truthyOpt (optField (map_of data k') ''generated_text''))
      \<and> optField (map_of data k) ''generated_text'' = Some t \<and> truthy t \<longrightarrow>
      extractText p data = Inr t" for ks1 k ks2 t
    using extractText_scan[of data p ks1 k ks2 t] by blast
  have ex1: "extractText ''openai/gpt-4o-mini'' [(''openai/gpt-4o-mini'', hiEntry)] = Inr (JStr ''hi'')"
    by (simp add: extractText_def hiEntry_def orElse_def trim_def isWhiteSpace_def)
  have ex2: "extractText ''openai/gpt-4o-mini'' [(''openai'', hiEntry)] = Inr (JStr ''hi'')"
    by (simp add: extractText_def baseProvider_def hiEntry_def orElse_def trim_def isWhiteSpace_def)
  have split: "CHR ''/'' \<in> set p \<longrightarrow> (\<exists>rest. p = baseProvider p @ CHR ''/'' # rest)"
    using baseProvider_split[of p] by blast
  have whole: "CHR ''/'' \<notin> set p \<longrightarrow> baseProvider p = p"
    by (simp add: baseProvider_whole)
  have b1: "baseProvider ''openai/gpt-4o-mini'' = ''openai''"
    and b2: "baseProvider ''mistral/large/v2'' = ''mistral''"
    by (simp_all add: baseProvider_def)
  have ex3: "extractText ''mistral/large'' [(''openai'', hiEntry), (''mistral'', quotaEntry)]
       = Inl (ProviderError (JStr ''quota exceeded''))"
    by (simp add: extractText_def baseProvider_def hiEntry_def quotaEntry_def orElse_def)
  have ex4: "extractText ''mistral/large'' [(''mistral/large'', JNull), (''mistral'', hiEntry)]
       = Inr (JStr ''hi'')"
    by (simp add: extractText_def baseProvider_def hiEntry_def orElse_def trim_def isWhiteSpace_def)
  have ex5: "extractText ''mistral/large''
         [(''a'', JObj [(''generated_text'', JStr [])]), (''b'', JNull), (''c'', hiEntry),
          (''d'', JObj [(''generated_text'', JStr ''later'')])]
       = Inr (JStr ''hi'')"
    by (simp add: extractText_def baseProvider_def availableProviders_def hiEntry_def orElse_def)
  have ex6: "extractText ''mistral/large'' [(''a'', JObj [(''generated_text'', JStr [])]), (''b'', JNull)]
       = Inl (NoProviderResponse ''mistral/large''
               (Some [(''a'', JObj [(''generated_text'', JStr [])]), (''b'', JNull)]))"
    by (simp add: extractText_def baseProvider_def availableProviders_def)
  have tr: "truthy v \<longleftrightarrow> v \<notin> {JNull, JBool False, JNum 0, JStr []}"
    by (cases v) auto
  have ex7: "extractText ''mistral/large'' [(''mistral/large'', JNum 0), (''mistral'', hiEntry)]
       = Inr (JStr ''hi'')"
    by (simp add: extractText_def baseProvider_def hiEntry_def orElse_def trim_def isWhiteSpace_def)
  have ex8: "extractText ''mistral/large'' [(''mistral/large'', JNum 1), (''mistral'', hiEntry)]
       = Inl EmptyResponse"
    by (simp add: extractText_def orElse_def)
  show ?thesis
    by (intro conjI allI exact base scan ex1 ex2 extractText_NoProviderResponse
          baseProvider_no_slash split whole b1 b2 ex3 ex4 ex5 ex6 tr ex7 ex8)
qed

theorem extraction_resolution_witness:
  "map_of [(''anthropic'', JObj []), (''google'', hiEntry)] ''openai/gpt-4o-mini'' = None
   \<and> map_of [(''anthropic'', JObj []), (''google'', hiEntry)] (baseProvider ''openai/gpt-4o-mini'') = None
   \<and> optField (map_of [(''anthropic'', JObj []), (''google'', hiEntry)] ''google'') ''generated_text''
       = Some (JStr ''hi'')
   \<and> extractText ''openai/gpt-4o-mini'' [(''anthropic'', JObj []), (''google'', hiEntry)] = Inr (JStr ''hi'')
   \<and> map_of [(''openai'', hiEntry)] (baseProvider ''openai/gpt-4o-mini'') = Some hiEntry
   \<and> extractText ''openai/gpt-4o-mini'' [(''openai'', hiEntry), (''google'', quotaEntry)]
       = extractText ''openai'' [(''openai'', hiEntry)]
   \<and> extractText ''google'' [(''openai'', hiEntry), (''google'', quotaEntry)]
       = extractText ''google'' [(''google'', quotaEntry)]
   \<and> (\<exists>q d. extractText ''openai/gpt-4o-mini'' [(''anthropic'', JObj [])] = Inl (NoProviderResponse q d))"
  using extraction_resolution[of "[(''anthropic'', JObj []), (''google'', hiEntry)]" "''openai/gpt-4o-mini''",
          THEN conjunct2, THEN conjunct2, THEN conjunct1, rule_format,
          of "[''anthropic'']" "''google''" "[]" "JStr ''hi''"]
        extraction_resolution[of "[(''openai'', hiEntry), (''google'', quotaEntry)]" "''openai/gpt-4o-mini''",
          THEN conjunct2, THEN conjunct1, rule_format, of hiEntry]
        extraction_resolution[of "[(''openai'', hiEntry), (''google'', quotaEntry)]" "''google''",
          THEN conjunct1, rule_format, of quotaEntry]
        extraction_resolution[of "[(''anthropic'', JObj [])]" "''openai/gpt-4o-mini''",
          THEN conjunct2, THEN conjunct2, THEN conjunct2, THEN conjunct1]
  by (simp add: baseProvider_def hiEntry_def quotaEntry_def)

lemma fetchCount_Nil [simp]: "fetchCount [] = 0"
  by (simp add: fetchCount_def)

lemma fetchCount_Cons [simp]:
  "fetchCount (e # w) = (if isFetch e then Suc (fetchCount w) else fetchCount w)"
  by (simp add: fetchCount_def)

lemma fetchCount_append [simp]: "fetchCount (w @ w') = fetchCount w + fetchCount w'"
  by (simp add: fetchCount_def)

lemma fetchCount_callTrace:
  "fetchCount (callTrace apiKey prompt opts) = (if configured apiKey then 1 else 0)"
  by (simp add: callTrace_def Let_def)

text \<open>A call of \<^verbatim>\<open>generateText\<close> entered with the trace \<open>w\<close>: its result and its events.\<close>

lemma generateText_eq:
  "generateText apiKey net prompt opts w =
     (attemptOutcome apiKey net prompt opts (fetchCount w), w @ callTrace apiKey prompt opts)"
  by (simp add: generateText_def attemptOutcome_def callTrace_def Let_def)

lemma attemptOutcome_okBody:
  assumes "configured apiKey" and "net k (generateRequest prompt opts) = okBody data"
  shows "attemptOutcome apiKey net prompt opts k =
           extractText (providers (generateRequest prompt opts)) data"
  using assms by (simp add: attemptOutcome_def generateTextResponse_def okBody_def)

lemma default_request_provider [simp]:
  "providers (generateRequest prompt noOptions) = ''openai/gpt-4o-mini''"
  by (simp add: generateRequest_def noOptions_def DEFAULT_PROVIDER_def)

lemma configured_key [simp]: "configured (Some ''key'')"
  by (simp add: configured_def)

lemma scriptedNet_0 [simp]: "scriptedNet (x # xs) 0 req = x"
  by (simp add: scriptedNet_def)

lemma scriptedNet_Suc [simp]: "scriptedNet (x # xs) (Suc k) req = scriptedNet xs k req"
  by (simp add: scriptedNet_def)

lemma scriptedNet_Nil [simp]: "scriptedNet [] k req = Rejected ''Failed to fetch''"
  by (simp add: scriptedNet_def)

text \<open>C6. An entry matched by the exact key or by the base name whose \<^verbatim>\<open>status\<close> is
  \<^verbatim>\<open>"fail"\<close> makes the extraction fail with \<open>ProviderError\<close>, carrying the entry's
  \<^verbatim>\<open>error.message\<close> when that is a non-empty string (and \<^verbatim>\<open>'Unknown error'\<close> when there is
  none). The entry with status \<^verbatim>\<open>"fail"\<close> and message \<^verbatim>\<open>"quota exceeded"\<close> fails with that
  message, under either key and through \<^verbatim>\<open>generateText\<close>.\<close>

theorem provider_reported_error:
  "(\<forall>e. (map_of data p = Some e
           \<or> \<not> truthyOpt (map_of data p) \<and> CHR ''/'' \<in> set p \<and> map_of data (baseProvider p) = Some e)
          \<and> truthy e \<and> field e ''status'' = Some (JStr ''fail'') \<longrightarrow>
          extractText p data =
            Inl (ProviderError (orElse (optField (field e ''error'') ''message'') (JStr ''Unknown error''))))
   \<and> (\<forall>e m. (map_of data p = Some e
           \<or> \<not> truthyOpt (map_of data p) \<and> CHR ''/'' \<in> set p \<and> map_of data (baseProvider p) = Some e)
          \<and> truthy e \<and> field e ''status'' = Some (JStr ''fail'')
          \<and> optField (field e ''error'') ''message'' = Some (JStr m) \<and> m \<noteq> [] \<longrightarrow>
          extractText p data = Inl (ProviderError (JStr m)))
   \<and> extractText ''openai/gpt-4o-mini'' [(''openai/gpt-4o-mini'', quotaEntry)]
       = Inl (ProviderError (JStr ''quota exceeded''))
   \<and> extractText ''openai/gpt-4o-mini'' [(''openai'', quotaEntry)]
       = Inl (ProviderError (JStr ''quota exceeded''))
   \<and> fst (generateText (Some ''key'') (scriptedNet [okBody [(''openai/gpt-4o-mini'', quotaEntry)]])
            ''hello'' noOptions [])
       = Inl (ProviderError (JStr ''quota exceeded''))"
proof -
  have general: "extractText p data =
      Inl (ProviderError (orElse (optField (field e ''error'') ''message'') (JStr ''Unknown error'')))"
    if matched: "map_of data p = Some e
           \<or> \<not> truthyOpt (map_of data p) \<and> CHR ''/'' \<in> set p \<and> map_of data (baseProvider p) = Some e"
      and e: "truthy e" "field e ''status'' = Some (JStr ''fail'')" for e
  proof -
    have "extractText q [(q, e)] =
        Inl (ProviderError (orElse (optField (field e ''error'') ''message'') (JStr ''Unknown error'')))"
      for q
      using e by (subst extractText_matched[of _ _ e]) simp_all
    moreover have "extractText p data = extractText p [(p, e)]
        \<or> extractText p data = extractText (baseProvider p) [(baseProvider p, e)]"
      using matched e(1) extractText_exact[of data p e] extractText_base[of data p e] by blast
    ultimately show ?thesis by metis
  qed
  have carried: "extractText p data = Inl (ProviderError (JStr m))"
    if "map_of data p = Some e
           \<or> \<not> truthyOpt (map_of data p) \<and> CHR ''/'' \<in> set p \<and> map_of data (baseProvider p) = Some e"
      and "truthy e" "field e ''status'' = Some (JStr ''fail'')"
      and "optField (field e ''error'') ''message'' = Some (JStr m)" "m \<noteq> []" for e m
    using general[OF that(1-3)] that(4,5) by (simp add: orElse_def)
  have ex1: "extractText ''openai/gpt-4o-mini'' [(''openai/gpt-4o-mini'', quotaEntry)]
       = Inl (ProviderError (JStr ''quota exceeded''))"
    by (simp add: extractText_def quotaEntry_def orElse_def)
  have ex2: "extractText ''openai/gpt-4o-mini'' [(''openai'', quotaEntry)]
       = Inl (ProviderError (JStr ''quota exceeded''))"
    by (simp add: extractText_def baseProvider_def quotaEntry_def orElse_def)
  have ex3: "fst (generateText (Some ''key'') (scriptedNet [okBody [(''openai/gpt-4o-mini'', quotaEntry)]])
            ''hello'' noOptions []) = Inl (ProviderError (JStr ''quota exceeded''))"
    by (simp add: generateText_eq attemptOutcome_okBody[of _ _ _ _ _ "[(''openai/gpt-4o-mini'', quotaEntry)]"] ex1)
  from general carried ex1 ex2 ex3 show ?thesis
    by (intro conjI allI impI) blast+
qed

theorem provider_reported_error_witness:
  "map_of [(''openai'', quotaEntry)] ''openai/gpt-4o-mini'' = None
   \<and> map_of [(''openai'', quotaEntry)] (baseProvider ''openai/gpt-4o-mini'') = Some quotaEntry
   \<and> truthy quotaEntry \<and> field quotaEntry ''status'' = Some (JStr ''fail'')
   \<and> optField (field quotaEntry ''error'') ''message'' = Some (JStr ''quota exceeded'')
   \<and> extractText ''openai/gpt-4o-mini'' [(''openai'', quotaEntry)]
       = Inl (ProviderError (JStr ''quota exceeded''))"
  using provider_reported_error[of "[(''openai'', quotaEntry)]" "''openai/gpt-4o-mini''",
          THEN conjunct2, THEN conjunct1, rule_format, of quotaEntry "''quota exceeded''"]
  by (simp add: baseProvider_def quotaEntry_def)

text \<open>C9. When neither the exact key nor the base name matches, the text of the first entry
  that exposes a truthy \<^verbatim>\<open>generated_text\<close> is returned as it is: neither the status and error
  of that entry nor the blankness of its text is looked at. An entry with status \<^verbatim>\<open>"fail"\<close>
  and a text, and an entry with a text of spaces, are returned as successes when they are
  scanned, and are failures when they are matched by their key.\<close>

theorem scan_bypasses_checks:
  "(\<forall>ks1 k ks2 e t.
       \<not> truthyOpt (map_of data p)
       \<and> (CHR ''/'' \<in> set p \<longrightarrow> \<not> truthyOpt (map_of data (baseProvider p)))
       \<and> map fst data = ks1 @ k # ks2
       \<and> (\<forall>k' \<in> set ks1. \<not> truthyOpt (optField (map_of data k') ''generated_text''))
       \<and> map_of data k = Some e \<and> field e ''generated_text'' = Some t \<and> truthy t \<longrightarrow>
       extractText p data = Inr t)
   \<and> extractText ''openai/gpt-4o-mini''
         [(''google'', JObj [(''status'', JStr ''fail''), (''generated_text'', JStr ''hi'')])]
       = Inr (JStr ''hi'')
   \<and> extractText ''openai/gpt-4o-mini'' [(''google'', JObj [(''generated_text'', JStr ''   '')])]
       = Inr (JStr ''   '')
   \<and> extractText ''google''
         [(''google'', JObj [(''status'', JStr ''fail''), (''generated_text'', JStr ''hi'')])]
       = Inl (ProviderError (JStr ''Unknown error''))
   \<and> extractText ''google'' [(''google'', JObj [(''generated_text'', JStr ''   '')])]
       = Inl EmptyResponse"
proof -
  have general: "extractText p data = Inr t"
    if "\<not> truthyOpt (map_of data p)"
      and "CHR ''/'' \<in> set p \<longrightarrow> \<not> truthyOpt (map_of data (baseProvider p))"
      and "map fst data = ks1 @ k # ks2"
      and "\<forall>k' \<in> set ks1. \<not> truthyOpt (optField (map_of data k') ''generated_text'')"
      and e: "map_of data k = Some e" "field e ''generated_text'' = Some t" "truthy t"
    for ks1 k ks2 e t
  proof -
    have "e \<noteq> JNull"
      using e(2) by auto
    then have "optField (map_of data k) ''generated_text'' = Some t"
      using e(1,2) by (cases e) simp_all
    with that show ?thesis
      by (intro extractText_scan[of data p ks1 k ks2 t]) simp_all
  qed
  have ex1: "extractText ''openai/gpt-4o-mini''
         [(''google'', JObj [(''status'', JStr ''fail''), (''generated_text'', JStr ''hi'')])]
       = Inr (JStr ''hi'')"
    by (simp add: extractText_def baseProvider_def availableProviders_def orElse_def)
  have ex2: "extractText ''openai/gpt-4o-mini'' [(''google'', JObj [(''generated_text'', JStr ''   '')])]
       = Inr (JStr ''   '')"
    by (simp add: extractText_def baseProvider_def availableProviders_def orElse_def)
  have ex3: "extractText ''google''
         [(''google'', JObj [(''status'', JStr ''fail''), (''generated_text'', JStr ''hi'')])]
       = Inl (ProviderError (JStr ''Unknown error''))"
    by (simp add: extractText_def orElse_def)
  have ex4: "extractText ''google'' [(''google'', JObj [(''generated_text'', JStr ''   '')])]
       = Inl EmptyResponse"
    by (simp add: extractText_def orElse_def trim_def isWhiteSpace_def)
  from general ex1 ex2 ex3 ex4 show ?thesis
    by (intro conjI allI impI) blast+
qed

theorem scan_bypasses_checks_witness:
  "map_of [(''anthropic'', JObj []), (''google'', JObj [(''status'', JStr ''fail''), (''generated_text'', JStr ''   '')])]
      ''openai/gpt-4o-mini'' = None
   \<and> map_of [(''anthropic'', JObj []), (''google'', JObj [(''status'', JStr ''fail''), (''generated_text'', JStr ''   '')])]
      (baseProvider ''openai/gpt-4o-mini'') = None
   \<and> \<not> truthyOpt (optField (map_of [(''anthropic'', JObj []), (''google'', JObj [(''status'', JStr ''fail''), (''generated_text'', JStr ''   '')])]
      ''anthropic'') ''generated_text'')
   \<and> extractText ''openai/gpt-4o-mini''
        [(''anthropic'', JObj []), (''google'', JObj [(''status'', JStr ''fail''), (''generated_text'', JStr ''   '')])]
       = Inr (JStr ''   '')"
  using scan_bypasses_checks[of
          "[(''anthropic'', JObj []), (''google'', JObj [(''status'', JStr ''fail''), (''generated_text'', JStr ''   '')])]"
          "''openai/gpt-4o-mini''",
          THEN conjunct1, rule_format,
          of "[''anthropic'']" "''google''" "[]"
             "JObj [(''status'', JStr ''fail''), (''generated_text'', JStr ''   '')]" "JStr ''   ''"]
  by (simp add: baseProvider_def)

section \<open>The retry controller\<close>

declare attemptLoop.simps [simp del]

lemma delays_append [simp]: "delays (w @ w') = delays w @ delays w'"
  by (induction w rule: delays.induct) simp_all

lemma attemptsLogged_append [simp]: "attemptsLogged (w @ w') = attemptsLogged w @ attemptsLogged w'"
  by (induction w rule: attemptsLogged.induct) simp_all

lemma requestsTo_append [simp]: "requestsTo p (w @ w') = requestsTo p w + requestsTo p w'"
  by (induction p w rule: requestsTo.induct) simp_all

lemma delays_callTrace [simp]: "delays (callTrace apiKey prompt opts) = []"
  by (simp add: callTrace_def Let_def)

lemma attemptsLogged_callTrace [simp]: "attemptsLogged (callTrace apiKey prompt opts) = []"
  by (simp add: callTrace_def Let_def)

lemma requestsTo_callTrace [simp]:
  "requestsTo p (callTrace apiKey prompt opts) =
     (if providers (generateRequest prompt opts) = p then 1 else 0)"
  by (simp add: callTrace_def Let_def)

lemma concat_upt_Suc:
  "concat (map f [0..<Suc k]) = concat (map f [0..<k]) @ f k"
  by simp

lemma fetchCount_failedAttempts:
  "fetchCount (concat (map (failedAttempt apiKey prompt opts n a d) [0..<k])) =
     (if configured apiKey then k else 0)"
  by (induction k) (simp_all add: failedAttempt_def fetchCount_callTrace)

lemma delays_failedAttempts:
  "delays (concat (map (failedAttempt apiKey prompt opts n a d) [0..<k])) =
     map (\<lambda>j. d * 2 ^ j) [0..<k]"
  by (induction k) (simp_all add: failedAttempt_def)

lemma attemptsLogged_failedAttempts:
  "attemptsLogged (concat (map (failedAttempt apiKey prompt opts n a d) [0..<k])) =
     map (\<lambda>j. a + int j) [0..<k]"
  by (induction k) (simp_all add: failedAttempt_def)

lemma requestsTo_failedAttempts:
  "requestsTo p (concat (map (failedAttempt apiKey prompt opts n a d) [0..<k])) =
     (if providers (generateRequest prompt opts) = p then k else 0)"
  by (induction k) (simp_all add: failedAttempt_def)

lemma sum_backoff: "(\<Sum>j<k. d * 2 ^ j) = d * (2 ^ k - 1)" for d :: nat
  by (induction k) (simp_all add: algebra_simps)

lemma sum_list_backoff: "sum_list (map (\<lambda>j. d * 2 ^ j) [0..<k]) = (\<Sum>j<k. d * 2 ^ j)" for d :: nat
  by (induction k) simp_all

lemma attemptOutcome_unconfigured:
  "\<not> configured apiKey \<Longrightarrow> attemptOutcome apiKey net prompt opts k = Inl ApiKeyNotConfigured"
  by (simp add: attemptOutcome_def)

text \<open>The loop, one turn at a time.\<close>

lemma attemptLoop_exhausted_now:
  "n < a \<Longrightarrow> attemptLoop apiKey net prompt opts n a d le w = (Exhausted le, w)"
  by (simp add: attemptLoop.simps)

lemma attemptLoop_success:
  assumes "a \<le> n" and "attemptOutcome apiKey net prompt opts (fetchCount w) = Inr t"
  shows "attemptLoop apiKey net prompt opts n a d le w =
           (Returned t, w @ ConsoleAttempt a n # callTrace apiKey prompt opts)"
  using assms by (subst attemptLoop.simps) (simp add: generateText_eq)

lemma attemptLoop_last_failure:
  assumes "attemptOutcome apiKey net prompt opts (fetchCount w) = Inl e"
  shows "attemptLoop apiKey net prompt opts n n d le w =
           (Exhausted (Some e), w @ ConsoleAttempt n n # callTrace apiKey prompt opts)"
  using assms by (subst attemptLoop.simps) (simp add: generateText_eq attemptLoop_exhausted_now)

lemma attemptLoop_failure_step:
  assumes "a < n" and "attemptOutcome apiKey net prompt opts (fetchCount w) = Inl e"
  shows "attemptLoop apiKey net prompt opts n a d le w =
           attemptLoop apiKey net prompt opts n (a + 1) (d * 2) (Some e)
             (w @ ConsoleAttempt a n # callTrace apiKey prompt opts @ [Sleep d])"
  using assms by (subst attemptLoop.simps) (simp add: generateText_eq)

lemma attemptOutcome_after_call:
  "attemptOutcome apiKey net prompt opts
     (fetchCount (w @ ConsoleAttempt a n # callTrace apiKey prompt opts @ [Sleep d]) + j) =
   attemptOutcome apiKey net prompt opts (fetchCount w + Suc j)"
  by (cases "configured apiKey") (simp_all add: fetchCount_callTrace attemptOutcome_unconfigured)

lemma attemptOutcome_after_failures:
  "attemptOutcome apiKey net prompt opts
     (fetchCount (w @ concat (map (failedAttempt apiKey prompt opts' n a d) [0..<k])) + j) =
   attemptOutcome apiKey net prompt opts (fetchCount w + k + j)"
  by (cases "configured apiKey")
     (simp_all add: fetchCount_failedAttempts attemptOutcome_unconfigured)

text \<open>\<open>k\<close> failed attempts, each followed by its wait, leave the loop at the attempt
  \<open>a + k\<close> with the delay doubled \<open>k\<close> times and the last error recorded.\<close>

lemma attemptLoop_skip_failures:
  assumes "a + int k \<le> n"
    and "\<forall>j<k. isl (attemptOutcome apiKey net prompt opts (fetchCount w + j))"
  shows "attemptLoop apiKey net prompt opts n a d le w =
           attemptLoop apiKey net prompt opts n (a + int k) (d * 2 ^ k)
             (if k = 0 then le
              else Some (projl (attemptOutcome apiKey net prompt opts (fetchCount w + (k - 1)))))
             (w @ concat (map (failedAttempt apiKey prompt opts n a d) [0..<k]))"
  using assms
proof (induction k arbitrary: a d le w)
  case 0
  then show ?case by simp
next
  case (Suc k)
  from Suc.prems(2) obtain e where e: "attemptOutcome apiKey net prompt opts (fetchCount w) = Inl e"
    by (auto simp: isl_def dest: spec[of _ 0])
  let ?w = "w @ ConsoleAttempt a n # callTrace apiKey prompt opts @ [Sleep d]"
  have step: "attemptLoop apiKey net prompt opts n a d le w =
                attemptLoop apiKey net prompt opts n (a + 1) (d * 2) (Some e) ?w"
    using Suc.prems(1) e by (intro attemptLoop_failure_step) auto
  have later: "\<forall>j<k. isl (attemptOutcome apiKey net prompt opts (fetchCount ?w + j))"
    using Suc.prems(2) by (simp only: attemptOutcome_after_call) auto
  have ih: "attemptLoop apiKey net prompt opts n (a + 1) (d * 2) (Some e) ?w =
              attemptLoop apiKey net prompt opts n (a + 1 + int k) (d * 2 * 2 ^ k)
                (if k = 0 then Some e
                 else Some (projl (attemptOutcome apiKey net prompt opts (fetchCount ?w + (k - 1)))))
                (?w @ concat (map (failedAttempt apiKey prompt opts n (a + 1) (d * 2)) [0..<k]))"
    using Suc.prems(1) later by (intro Suc.IH) auto
  have last: "(if k = 0 then Some e
                 else Some (projl (attemptOutcome apiKey net prompt opts (fetchCount ?w + (k - 1))))) =
              Some (projl (attemptOutcome apiKey net prompt opts (fetchCount w + k)))"
  proof (cases k)
    case 0
    with e show ?thesis by simp
  next
    case (Suc k')
    then show ?thesis by (simp only: attemptOutcome_after_call) simp
  qed
  have shift: "map (failedAttempt apiKey prompt opts n (a + 1) (d * 2)) [0..<k] =
               map (failedAttempt apiKey prompt opts n a d) (map Suc [0..<k])"
    by (simp add: failedAttempt_def ac_simps)
  have upt: "[0..<Suc k] = 0 # map Suc [0..<k]"
    unfolding map_Suc_upt by (rule upt_conv_Cons) simp
  have trace: "?w @ concat (map (failedAttempt apiKey prompt opts n (a + 1) (d * 2)) [0..<k]) =
               w @ concat (map (failedAttempt apiKey prompt opts n a d) [0..<Suc k])"
    unfolding shift upt by (simp add: failedAttempt_def)
  show ?case
    unfolding step ih last trace by (simp add: ac_simps)
qed

text \<open>The whole loop when every attempt before the last one fails.\<close>

lemma attemptLoop_until_last:
  assumes "1 \<le> n"
    and "\<forall>j<n - 1. isl (attemptOutcome apiKey net prompt opts (fetchCount w + j))"
  shows "attemptLoop apiKey net prompt opts (int n) 1 1000 None w =
           (case attemptOutcome apiKey net prompt opts (fetchCount w + (n - 1)) of
              Inr t \<Rightarrow> Returned t
            | Inl e \<Rightarrow> Exhausted (Some e),
            w @ concat (map (failedAttempt apiKey prompt opts (int n) 1 1000) [0..<n - 1])
              @ ConsoleAttempt (int n) (int n) # callTrace apiKey prompt opts)"
proof -
  let ?w = "w @ concat (map (failedAttempt apiKey prompt opts (int n) 1 1000) [0..<n - 1])"
  have n: "1 + int (n - 1) = int n"
    using assms(1) by simp
  have skip: "attemptLoop apiKey net prompt opts (int n) 1 1000 None w =
      attemptLoop apiKey net prompt opts (int n) (int n) (1000 * 2 ^ (n - 1))
        (if n - 1 = 0 then None
         else Some (projl (attemptOutcome apiKey net prompt opts (fetchCount w + (n - 1 - 1))))) ?w"
    using attemptLoop_skip_failures[of 1 "n - 1" "int n" apiKey net prompt opts w 1000 None] assms(2)
    by (simp only: n)
  have at: "attemptOutcome apiKey net prompt opts (fetchCount ?w) =
            attemptOutcome apiKey net prompt opts (fetchCount w + (n - 1))"
    using attemptOutcome_after_failures[of apiKey net prompt opts w opts "int n" 1 1000 "n - 1" 0]
    by simp
  show ?thesis
  proof (cases "attemptOutcome apiKey net prompt opts (fetchCount w + (n - 1))")
    case (Inl e)
    with at show ?thesis
      unfolding skip by (simp add: attemptLoop_last_failure)
  next
    case (Inr t)
    with at show ?thesis
      unfolding skip by (simp add: attemptLoop_success)
  qed
qed

lemma failedAttempt_fun:
  "failedAttempt apiKey prompt opts n 1 1000 =
     (\<lambda>j. ConsoleAttempt (1 + int j) n # callTrace apiKey prompt opts @ [Sleep (1000 * 2 ^ j)])"
  by (rule ext) (simp add: failedAttempt_def)

lemma attemptLoop_extends:
  "nat (n + 1 - a) = m \<Longrightarrow> \<exists>w'. snd (attemptLoop apiKey net prompt opts n a d le w) = w @ w'"
proof (induction m arbitrary: a d le w)
  case 0
  then show ?case by (simp add: attemptLoop_exhausted_now)
next
  case (Suc m)
  then have a: "a \<le> n" by simp
  show ?case
  proof (cases "attemptOutcome apiKey net prompt opts (fetchCount w)")
    case (Inr t)
    with a show ?thesis by (simp add: attemptLoop_success)
  next
    case (Inl e)
    show ?thesis
    proof (cases "a < n")
      case True
      from Suc.prems have "nat (n + 1 - (a + 1)) = m" by simp
      from Suc.IH[OF this] obtain w' where
        "snd (attemptLoop apiKey net prompt opts n (a + 1) (d * 2) (Some e)
               (w @ ConsoleAttempt a n # callTrace apiKey prompt opts @ [Sleep d])) =
         (w @ ConsoleAttempt a n # callTrace apiKey prompt opts @ [Sleep d]) @ w'"
        by blast
      with True Inl show ?thesis
        by (simp add: attemptLoop_failure_step)
    next
      case False
      with a have "a = n" by simp
      with Inl show ?thesis by (simp add: attemptLoop_last_failure)
    qed
  qed
qed

lemma generateTextWithRetry_extends_loop:
  "\<exists>w'. snd (generateTextWithRetry apiKey net prompt opts w) =
          snd (attemptLoop apiKey net prompt (generateOptionsOf opts) (maxRetriesOf opts) 1 1000 None w) @ w'"
  by (cases "attemptLoop apiKey net prompt (generateOptionsOf opts) (maxRetriesOf opts) 1 1000 None w")
     (auto simp add: generateTextWithRetry_def generateText_eq Let_def split: loop_exit.splits sum.splits)

text \<open>The provider of the fallback is not one that has a fallback.\<close>

lemma fallback_request_provider [simp]:
  "providers (generateRequest prompt (fallbackOptions opts)) = FALLBACK_PROVIDER"
  by (simp add: generateRequest_def fallbackOptions_def)

lemma primary_is_not_fallback:
  assumes "includesStr (currentProvider opts) ''openai''"
  shows "providers (generateRequest prompt opts) \<noteq> FALLBACK_PROVIDER"
proof
  assume eq: "providers (generateRequest prompt opts) = FALLBACK_PROVIDER"
  have "DEFAULT_PROVIDER \<noteq> FALLBACK_PROVIDER"
    by (simp add: DEFAULT_PROVIDER_def FALLBACK_PROVIDER_def)
  with eq have "provider opts = Some FALLBACK_PROVIDER"
    by (cases "provider opts") (simp_all add: generateRequest_def)
  then have "currentProvider opts = FALLBACK_PROVIDER"
    by (simp add: currentProvider_def FALLBACK_PROVIDER_def)
  moreover have "\<not> includesStr FALLBACK_PROVIDER ''openai''"
    by (simp add: FALLBACK_PROVIDER_def)
  ultimately show False
    using assms by simp
qed

lemmas eval_defs =
  generateRequest_def generateOptionsOf_def fallbackOptions_def noRetryOptions_def noOptions_def
  maxRetriesOf_def currentProvider_def generateTextResponse_def okBody_def extractText_def
  availableProviders_def baseProvider_def hiEntry_def quotaEntry_def orElse_def trim_def
  isWhiteSpace_def DEFAULT_PROVIDER_def FALLBACK_PROVIDER_def configured_def attemptOutcome_def
  callTrace_def

text \<open>C8. When the first attempt succeeds, \<^verbatim>\<open>generateTextWithRetry\<close> returns its text, and
  all it has done is announce the attempt and the request and send one request: no wait, no
  second attempt, no fallback.\<close>

theorem first_attempt_success:
  assumes "1 \<le> maxRetriesOf opts"
    and "generateText apiKey net prompt (generateOptionsOf opts)
           (w @ [ConsoleAttempt 1 (maxRetriesOf opts)]) = (Inr t, w')"
  shows "generateTextWithRetry apiKey net prompt opts w = (Inr t, w')
     \<and> w' = w @ [ConsoleAttempt 1 (maxRetriesOf opts),
                  ConsoleRequest (providers (generateRequest prompt (generateOptionsOf opts)))
                    (req_temperature (generateRequest prompt (generateOptionsOf opts)))
                    (max_tokens (generateRequest prompt (generateOptionsOf opts))) (length prompt),
                  Fetch (generateRequest prompt (generateOptionsOf opts))]
     \<and> fetchCount w' = Suc (fetchCount w)
     \<and> delays w' = delays w
     \<and> attemptsLogged w' = attemptsLogged w @ [1]"
proof -
  let ?g = "generateOptionsOf opts"
  from assms(2) have out: "attemptOutcome apiKey net prompt ?g (fetchCount w) = Inr t"
    and w': "w' = w @ ConsoleAttempt 1 (maxRetriesOf opts) # callTrace apiKey prompt ?g"
    by (simp_all add: generateText_eq)
  from out have key: "configured apiKey"
    by (auto simp add: attemptOutcome_def split: if_splits)
  have "attemptLoop apiKey net prompt ?g (maxRetriesOf opts) 1 1000 None w = (Returned t, w')"
    using assms(1) out w' by (simp add: attemptLoop_success)
  then have "generateTextWithRetry apiKey net prompt opts w = (Inr t, w')"
    by (simp add: generateTextWithRetry_def)
  moreover have "callTrace apiKey prompt ?g =
      [ConsoleRequest (providers (generateRequest prompt ?g)) (req_temperature (generateRequest prompt ?g))
         (max_tokens (generateRequest prompt ?g)) (length prompt),
       Fetch (generateRequest prompt ?g)]"
    using key by (simp add: callTrace_def Let_def)
  ultimately show ?thesis
    using w' by simp
qed

theorem first_attempt_success_witness:
  "1 \<le> maxRetriesOf noRetryOptions
   \<and> generateTextWithRetry (Some ''key'') (scriptedNet [okBody [(''openai/gpt-4o-mini'', hiEntry)]])
        ''hello'' noRetryOptions [] =
      (Inr (JStr ''hi''),
       [ConsoleAttempt 1 3, ConsoleRequest ''openai/gpt-4o-mini'' (3 / 10) 4000 5,
        Fetch (generateRequest ''hello'' noOptions)])"
  using first_attempt_success[of noRetryOptions "Some ''key''"
          "scriptedNet [okBody [(''openai/gpt-4o-mini'', hiEntry)]]" "''hello''" "[]" "JStr ''hi''"
          "[ConsoleAttempt 1 3, ConsoleRequest ''openai/gpt-4o-mini'' (3 / 10) 4000 5,
            Fetch (generateRequest ''hello'' noOptions)]"]
  by (simp add: generateText_def eval_defs)

text \<open>C2. When the attempts before the last one fail and the last one succeeds, the text of the
  last attempt is returned; the failed attempt number \<open>j + 1\<close> is followed by a wait of
  \<open>1000 * 2 ^ j\<close> milliseconds, so that the waits are 1000, 2000, 4000, ... in this order and
  add up to \<open>1000 * (2 ^ (n - 1) - 1)\<close>.\<close>

theorem last_attempt_success:
  assumes "maxRetriesOf opts = int n" and "1 \<le> n"
    and "\<forall>j<n - 1. isl (attemptOutcome apiKey net prompt (generateOptionsOf opts) (fetchCount w + j))"
    and "attemptOutcome apiKey net prompt (generateOptionsOf opts) (fetchCount w + (n - 1)) = Inr t"
  shows "fst (generateTextWithRetry apiKey net prompt opts w) = Inr t
     \<and> snd (generateTextWithRetry apiKey net prompt opts w) =
         w @ concat (map (\<lambda>j. ConsoleAttempt (1 + int j) (int n)
                               # callTrace apiKey prompt (generateOptionsOf opts)
                               @ [Sleep (1000 * 2 ^ j)]) [0..<n - 1])
           @ ConsoleAttempt (int n) (int n) # callTrace apiKey prompt (generateOptionsOf opts)
     \<and> delays (snd (generateTextWithRetry apiKey net prompt opts w)) =
         delays w @ map (\<lambda>j. 1000 * 2 ^ j) [0..<n - 1]
     \<and> sum_list (delays (snd (generateTextWithRetry apiKey net prompt opts w))) =
         sum_list (delays w) + (\<Sum>j<n - 1. 1000 * 2 ^ j)
     \<and> (\<Sum>j<n - 1. 1000 * 2 ^ j) = (1000 * (2 ^ (n - 1) - 1) :: nat)"
proof -
  let ?g = "generateOptionsOf opts"
  let ?tr = "concat (map (failedAttempt apiKey prompt ?g (int n) 1 1000) [0..<n - 1])
               @ ConsoleAttempt (int n) (int n) # callTrace apiKey prompt ?g"
  have loop: "attemptLoop apiKey net prompt ?g (maxRetriesOf opts) 1 1000 None w = (Returned t, w @ ?tr)"
    using attemptLoop_until_last[OF assms(2,3)] assms(1,4) by simp
  then have run: "generateTextWithRetry apiKey net prompt opts w = (Inr t, w @ ?tr)"
    by (simp add: generateTextWithRetry_def)
  have "delays (w @ ?tr) = delays w @ map (\<lambda>j. 1000 * 2 ^ j) [0..<n - 1]"
    by (simp add: delays_failedAttempts)
  then show ?thesis
    unfolding run by (simp add: failedAttempt_fun sum_list_backoff sum_backoff)
qed

theorem last_attempt_success_witness:
  "maxRetriesOf noRetryOptions = int 3
   \<and> isl (attemptOutcome (Some ''key'')
            (scriptedNet [okBody [], okBody [], okBody [(''openai/gpt-4o-mini'', hiEntry)]])
            ''hello'' (generateOptionsOf noRetryOptions) 0)
   \<and> isl (attemptOutcome (Some ''key'')
            (scriptedNet [okBody [], okBody [], okBody [(''openai/gpt-4o-mini'', hiEntry)]])
            ''hello'' (generateOptionsOf noRetryOptions) 1)
   \<and> fst (generateTextWithRetry (Some ''key'')
            (scriptedNet [okBody [], okBody [], okBody [(''openai/gpt-4o-mini'', hiEntry)]])
            ''hello'' noRetryOptions []) = Inr (JStr ''hi'')
   \<and> delays (snd (generateTextWithRetry (Some ''key'')
            (scriptedNet [okBody [], okBody [], okBody [(''openai/gpt-4o-mini'', hiEntry)]])
            ''hello'' noRetryOptions [])) = [1000, 2000]"
proof -
  let ?net = "scriptedNet [okBody [], okBody [], okBody [(''openai/gpt-4o-mini'', hiEntry)]]"
  have n: "maxRetriesOf noRetryOptions = int 3"
    by (simp add: maxRetriesOf_def noRetryOptions_def)
  have f0: "isl (attemptOutcome (Some ''key'') ?net ''hello'' (generateOptionsOf noRetryOptions) 0)"
    by (simp add: eval_defs)
  have f1: "isl (attemptOutcome (Some ''key'') ?net ''hello'' (generateOptionsOf noRetryOptions) 1)"
    by (simp add: eval_defs)
  have fails: "\<forall>j<3 - 1. isl (attemptOutcome (Some ''key'') ?net ''hello''
                  (generateOptionsOf noRetryOptions) (fetchCount [] + j))"
    using f0 f1 by (auto simp add: less_Suc_eq numeral_2_eq_2)
  have ok: "attemptOutcome (Some ''key'') ?net ''hello'' (generateOptionsOf noRetryOptions)
              (fetchCount [] + (3 - 1)) = Inr (JStr ''hi'')"
    by (simp add: eval_defs numeral_2_eq_2)
  have upt: "[0..<2] = [0, Suc 0]"
    by (simp add: numeral_2_eq_2)
  show ?thesis
    using last_attempt_success[OF n _ fails ok] n f0 f1 by (simp add: upt)
qed

text \<open>The run of \<^verbatim>\<open>generateTextWithRetry\<close> when all the \<open>n\<close> primary attempts fail.\<close>

lemma retry_exhausted:
  assumes "maxRetriesOf opts = int n" and "1 \<le> n"
    and "\<forall>j<n. isl (attemptOutcome apiKey net prompt (generateOptionsOf opts) (fetchCount w + j))"
  shows "attemptLoop apiKey net prompt (generateOptionsOf opts) (maxRetriesOf opts) 1 1000 None w =
      (Exhausted (Some (projl (attemptOutcome apiKey net prompt (generateOptionsOf opts)
                                 (fetchCount w + (n - 1))))),
       w @ concat (map (failedAttempt apiKey prompt (generateOptionsOf opts) (int n) 1 1000) [0..<n - 1])
         @ ConsoleAttempt (int n) (int n) # callTrace apiKey prompt (generateOptionsOf opts))"
proof -
  from assms(2,3) obtain e where
    "attemptOutcome apiKey net prompt (generateOptionsOf opts) (fetchCount w + (n - 1)) = Inl e"
    by (auto simp add: isl_def dest!: spec[of _ "n - 1"])
  moreover have "\<forall>j<n - 1. isl (attemptOutcome apiKey net prompt (generateOptionsOf opts) (fetchCount w + j))"
    using assms(3) by simp
  ultimately show ?thesis
    using attemptLoop_until_last[OF assms(2), of apiKey net prompt "generateOptionsOf opts" w] assms(1)
    by simp
qed

lemma fetchCount_primary_trace:
  assumes "1 \<le> n"
  shows "fetchCount (w @ concat (map (failedAttempt apiKey prompt opts m 1 1000) [0..<n - 1])
            @ ConsoleAttempt a b # callTrace apiKey prompt opts @ [ConsoleFallback]) =
         fetchCount w + (if configured apiKey then n else 0)"
  using assms by (simp add: fetchCount_failedAttempts fetchCount_callTrace)

lemma fallback_outcome_index:
  assumes "1 \<le> n"
  shows "attemptOutcome apiKey net prompt fopts
           (fetchCount (w @ concat (map (failedAttempt apiKey prompt opts m 1 1000) [0..<n - 1])
              @ ConsoleAttempt a b # callTrace apiKey prompt opts @ [ConsoleFallback])) =
         attemptOutcome apiKey net prompt fopts (fetchCount w + n)"
  unfolding fetchCount_primary_trace[OF assms]
  by (cases "configured apiKey") (simp_all add: attemptOutcome_unconfigured)

text \<open>The run when the \<open>n \<ge> 1\<close> primary attempts fail and a fallback applies.\<close>

lemma retry_exhausted_run:
  assumes "maxRetriesOf opts = int n" and "1 \<le> n"
    and "includesStr (currentProvider (generateOptionsOf opts)) ''openai''"
    and "\<forall>j<n. isl (attemptOutcome apiKey net prompt (generateOptionsOf opts) (fetchCount w + j))"
  shows "generateTextWithRetry apiKey net prompt opts w =
      (case attemptOutcome apiKey net prompt (fallbackOptions opts) (fetchCount w + n) of
         Inr t \<Rightarrow> Inr t
       | Inl fallbackError \<Rightarrow>
           attemptOutcome apiKey net prompt (generateOptionsOf opts) (fetchCount w + (n - 1)),
       w @ concat (map (failedAttempt apiKey prompt (generateOptionsOf opts) (int n) 1 1000) [0..<n - 1])
         @ ConsoleAttempt (int n) (int n) # callTrace apiKey prompt (generateOptionsOf opts)
         @ ConsoleFallback # callTrace apiKey prompt (fallbackOptions opts))"
proof -
  let ?g = "generateOptionsOf opts" and ?f = "fallbackOptions opts"
  let ?p = "concat (map (failedAttempt apiKey prompt ?g (int n) 1 1000) [0..<n - 1])
              @ ConsoleAttempt (int n) (int n) # callTrace apiKey prompt ?g"
  from assms(2,4) obtain e where
    e: "attemptOutcome apiKey net prompt ?g (fetchCount w + (n - 1)) = Inl e"
    by (auto simp add: isl_def dest!: spec[of _ "n - 1"])
  have loop: "attemptLoop apiKey net prompt ?g (maxRetriesOf opts) 1 1000 None w =
                (Exhausted (Some e), w @ ?p)"
    using retry_exhausted[OF assms(1,2,4)] e by simp
  note idx = fallback_outcome_index[OF assms(2), of apiKey net prompt ?f w ?g "int n" "int n" "int n"]
  show ?thesis
    using assms(3) idx e
    by (simp add: generateTextWithRetry_def loop generateText_eq Let_def split: sum.splits)
qed

text \<open>The run when there is no primary attempt to make.\<close>

lemma retry_none_run:
  assumes "maxRetriesOf opts \<le> 0"
  shows "generateTextWithRetry apiKey net prompt opts w =
      (if includesStr (currentProvider (generateOptionsOf opts)) ''openai''
       then (case attemptOutcome apiKey net prompt (fallbackOptions opts) (fetchCount w) of
               Inr t \<Rightarrow> Inr t
             | Inl fallbackError \<Rightarrow> Inl RetriesFailed,
             w @ ConsoleFallback # callTrace apiKey prompt (fallbackOptions opts))
       else (Inl RetriesFailed, w))"
proof -
  have loop: "attemptLoop apiKey net prompt (generateOptionsOf opts) (maxRetriesOf opts) 1 1000 None w =
                (Exhausted None, w)"
    using assms by (simp add: attemptLoop_exhausted_now)
  show ?thesis
    by (simp add: generateTextWithRetry_def loop generateText_eq Let_def split: sum.splits)
qed

text \<open>C1. When all the primary attempts fail and the configured provider contains
  \<^verbatim>\<open>openai\<close>, the trace ends with the announcement of the fallback and one call of
  \<^verbatim>\<open>generateText\<close> for the fallback provider, the only call for that provider of the run.
  If this call returns a text, the text is returned. If it fails, whatever its error, the
  error thrown is the error of the last primary attempt (there is one when \<^verbatim>\<open>maxRetries\<close>
  is at least 1).\<close>

theorem fallback_after_exhaustion:
  assumes "includesStr (currentProvider (generateOptionsOf opts)) ''openai''"
    and "\<forall>j<nat (maxRetriesOf opts).
           isl (attemptOutcome apiKey net prompt (generateOptionsOf opts) (fetchCount w + j))"
  shows "requestsTo FALLBACK_PROVIDER (snd (generateTextWithRetry apiKey net prompt opts w)) =
         requestsTo FALLBACK_PROVIDER w + 1
     \<and> (\<exists>primary. snd (generateTextWithRetry apiKey net prompt opts w) =
           w @ primary @ ConsoleFallback # callTrace apiKey prompt (fallbackOptions opts)
           \<and> requestsTo FALLBACK_PROVIDER primary = 0)
     \<and> (1 \<le> maxRetriesOf opts \<longrightarrow>
          snd (generateTextWithRetry apiKey net prompt opts w) =
            w @ concat (map (\<lambda>j. ConsoleAttempt (1 + int j) (maxRetriesOf opts)
                                  # callTrace apiKey prompt (generateOptionsOf opts)
                                  @ [Sleep (1000 * 2 ^ j)]) [0..<nat (maxRetriesOf opts) - 1])
              @ ConsoleAttempt (maxRetriesOf opts) (maxRetriesOf opts)
              # callTrace apiKey prompt (generateOptionsOf opts)
              @ ConsoleFallback # callTrace apiKey prompt (fallbackOptions opts))
     \<and> (\<forall>t. attemptOutcome apiKey net prompt (fallbackOptions opts)
              (fetchCount w + nat (maxRetriesOf opts)) = Inr t \<longrightarrow>
            fst (generateTextWithRetry apiKey net prompt opts w) = Inr t)
     \<and> (\<forall>fallbackError.
            1 \<le> maxRetriesOf opts
            \<and> attemptOutcome apiKey net prompt (fallbackOptions opts)
                (fetchCount w + nat (maxRetriesOf opts)) = Inl fallbackError \<longrightarrow>
            fst (generateTextWithRetry apiKey net prompt opts w) =
              attemptOutcome apiKey net prompt (generateOptionsOf opts)
                (fetchCount w + (nat (maxRetriesOf opts) - 1)))"
proof (cases "1 \<le> maxRetriesOf opts")
  case True
  let ?g = "generateOptionsOf opts" and ?f = "fallbackOptions opts"
  let ?n = "nat (maxRetriesOf opts)"
  let ?p = "concat (map (failedAttempt apiKey prompt ?g (int ?n) 1 1000) [0..<?n - 1])
              @ ConsoleAttempt (int ?n) (int ?n) # callTrace apiKey prompt ?g"
  from True have n: "maxRetriesOf opts = int ?n" "1 \<le> ?n"
    by simp_all
  have run: "generateTextWithRetry apiKey net prompt opts w =
      (case attemptOutcome apiKey net prompt ?f (fetchCount w + ?n) of
         Inr t \<Rightarrow> Inr t
       | Inl fallbackError \<Rightarrow> attemptOutcome apiKey net prompt ?g (fetchCount w + (?n - 1)),
       w @ ?p @ ConsoleFallback # callTrace apiKey prompt ?f)"
    using retry_exhausted_run[OF n assms(1,2)] by simp
  have primary: "providers (generateRequest prompt ?g) \<noteq> FALLBACK_PROVIDER"
    using assms(1) by (rule primary_is_not_fallback)
  then have none: "requestsTo FALLBACK_PROVIDER ?p = 0"
    by (simp add: requestsTo_failedAttempts)
  then have count: "requestsTo FALLBACK_PROVIDER (w @ ?p @ ConsoleFallback # callTrace apiKey prompt ?f) =
               requestsTo FALLBACK_PROVIDER w + 1"
    by simp
  have split: "\<exists>primary. w @ ?p @ ConsoleFallback # callTrace apiKey prompt ?f =
           w @ primary @ ConsoleFallback # callTrace apiKey prompt ?f
           \<and> requestsTo FALLBACK_PROVIDER primary = 0"
    using none by blast
  have explicit: "w @ ?p @ ConsoleFallback # callTrace apiKey prompt ?f =
      w @ concat (map (\<lambda>j. ConsoleAttempt (1 + int j) (maxRetriesOf opts)
                            # callTrace apiKey prompt ?g @ [Sleep (1000 * 2 ^ j)]) [0..<?n - 1])
        @ ConsoleAttempt (maxRetriesOf opts) (maxRetriesOf opts) # callTrace apiKey prompt ?g
        @ ConsoleFallback # callTrace apiKey prompt ?f"
    using True by (simp add: failedAttempt_fun)
  show ?thesis
    unfolding run snd_conv fst_conv using count split explicit by (auto split: sum.splits)
next
  case False
  then have n: "maxRetriesOf opts \<le> 0" "nat (maxRetriesOf opts) = 0"
    by simp_all
  have run: "generateTextWithRetry apiKey net prompt opts w =
      (case attemptOutcome apiKey net prompt (fallbackOptions opts) (fetchCount w) of
         Inr t \<Rightarrow> Inr t
       | Inl fallbackError \<Rightarrow> Inl RetriesFailed,
       w @ ConsoleFallback # callTrace apiKey prompt (fallbackOptions opts))"
    using retry_none_run[OF n(1), of apiKey net prompt w] assms(1) by simp
  have "\<exists>primary. w @ ConsoleFallback # callTrace apiKey prompt (fallbackOptions opts) =
           w @ primary @ ConsoleFallback # callTrace apiKey prompt (fallbackOptions opts)
           \<and> requestsTo FALLBACK_PROVIDER primary = 0"
    by (intro exI[of _ "[]"]) simp
  with False show ?thesis
    unfolding run snd_conv fst_conv n(2) by (auto split: sum.splits)
qed

theorem fallback_after_exhaustion_witness:
  "maxRetriesOf noRetryOptions = int 3
   \<and> includesStr (currentProvider (generateOptionsOf noRetryOptions)) ''openai''
   \<and> attemptOutcome (Some ''key'')
        (scriptedNet [okBody [], okBody [], okBody [(''openai'', quotaEntry)],
                      okBody [(''google/gemini-1.5-flash'', hiEntry)]])
        ''hello'' (generateOptionsOf noRetryOptions) 0
       = Inl (NoProviderResponse ''openai/gpt-4o-mini'' (Some []))
   \<and> attemptOutcome (Some ''key'')
        (scriptedNet [okBody [], okBody [], okBody [(''openai'', quotaEntry)],
                      okBody [(''google/gemini-1.5-flash'', hiEntry)]])
        ''hello'' (generateOptionsOf noRetryOptions) 1
       = Inl (NoProviderResponse ''openai/gpt-4o-mini'' (Some []))
   \<and> attemptOutcome (Some ''key'')
        (scriptedNet [okBody [], okBody [], okBody [(''openai'', quotaEntry)],
                      okBody [(''google/gemini-1.5-flash'', hiEntry)]])
        ''hello'' (generateOptionsOf noRetryOptions) 2
       = Inl (ProviderError (JStr ''quota exceeded''))
   \<and> fst (generateTextWithRetry (Some ''key'')
            (scriptedNet [okBody [], okBody [], okBody [(''openai'', quotaEntry)],
                          okBody [(''google/gemini-1.5-flash'', hiEntry)]])
            ''hello'' noRetryOptions []) = Inr (JStr ''hi'')
   \<and> attemptOutcome (Some ''key'')
        (scriptedNet [okBody [], okBody [], okBody [(''openai'', quotaEntry)], okBody []])
        ''hello'' (fallbackOptions noRetryOptions) 3
       = Inl (NoProviderResponse ''google/gemini-1.5-flash'' (Some []))
   \<and> fst (generateTextWithRetry (Some ''key'')
            (scriptedNet [okBody [], okBody [], okBody [(''openai'', quotaEntry)], okBody []])
            ''hello'' noRetryOptions []) = Inl (ProviderError (JStr ''quota exceeded''))"
proof -
  let ?good = "scriptedNet [okBody [], okBody [], okBody [(''openai'', quotaEntry)],
                            okBody [(''google/gemini-1.5-flash'', hiEntry)]]"
  let ?bad = "scriptedNet [okBody [], okBody [], okBody [(''openai'', quotaEntry)], okBody []]"
  have n: "maxRetriesOf noRetryOptions = int 3"
    by (simp add: maxRetriesOf_def noRetryOptions_def)
  have family: "includesStr (currentProvider (generateOptionsOf noRetryOptions)) ''openai''"
    by (simp add: eval_defs)
  have three: "j < 3 \<longleftrightarrow> j = 0 \<or> j = Suc 0 \<or> j = Suc (Suc 0)" for j :: nat
    by auto
  have g0: "attemptOutcome (Some ''key'') ?good ''hello'' (generateOptionsOf noRetryOptions) 0
       = Inl (NoProviderResponse ''openai/gpt-4o-mini'' (Some []))"
    by (simp add: eval_defs)
  have g1: "attemptOutcome (Some ''key'') ?good ''hello'' (generateOptionsOf noRetryOptions) 1
       = Inl (NoProviderResponse ''openai/gpt-4o-mini'' (Some []))"
    by (simp add: eval_defs)
  have g2: "attemptOutcome (Some ''key'') ?good ''hello'' (generateOptionsOf noRetryOptions) 2
       = Inl (ProviderError (JStr ''quota exceeded''))"
    by (simp add: eval_defs numeral_2_eq_2)
  have good: "\<forall>j<3. isl (attemptOutcome (Some ''key'') ?good ''hello''
                 (generateOptionsOf noRetryOptions) (fetchCount [] + j))"
    using g0 g1 g2 by (auto simp add: three numeral_2_eq_2)
  have bad: "\<forall>j<3. isl (attemptOutcome (Some ''key'') ?bad ''hello''
                 (generateOptionsOf noRetryOptions) (fetchCount [] + j))"
    by (auto simp add: three eval_defs)
  have good': "\<forall>j<nat (maxRetriesOf noRetryOptions). isl (attemptOutcome (Some ''key'') ?good ''hello''
                 (generateOptionsOf noRetryOptions) (fetchCount [] + j))"
    using good n by simp
  have bad': "\<forall>j<nat (maxRetriesOf noRetryOptions). isl (attemptOutcome (Some ''key'') ?bad ''hello''
                 (generateOptionsOf noRetryOptions) (fetchCount [] + j))"
    using bad n by simp
  have fb_good: "attemptOutcome (Some ''key'') ?good ''hello'' (fallbackOptions noRetryOptions)
                   (fetchCount [] + 3) = Inr (JStr ''hi'')"
    by (simp add: eval_defs numeral_3_eq_3)
  have fb_bad: "attemptOutcome (Some ''key'') ?bad ''hello'' (fallbackOptions noRetryOptions)
                   (fetchCount [] + 3) = Inl (NoProviderResponse ''google/gemini-1.5-flash'' (Some []))"
    by (simp add: eval_defs numeral_3_eq_3)
  have last_bad: "attemptOutcome (Some ''key'') ?bad ''hello'' (generateOptionsOf noRetryOptions)
                   (fetchCount [] + (3 - 1)) = Inl (ProviderError (JStr ''quota exceeded''))"
    by (simp add: eval_defs numeral_2_eq_2)
  from fallback_after_exhaustion[OF family good'] fb_good
  have "fst (generateTextWithRetry (Some ''key'') ?good ''hello'' noRetryOptions []) = Inr (JStr ''hi'')"
    using n by simp
  moreover from fallback_after_exhaustion[OF family bad'] fb_bad last_bad n
  have "fst (generateTextWithRetry (Some ''key'') ?bad ''hello'' noRetryOptions []) =
          Inl (ProviderError (JStr ''quota exceeded''))"
    by simp
  ultimately show ?thesis
    using n family g0 g1 g2 fb_bad by simp
qed

text \<open>C10. With \<^verbatim>\<open>maxRetries\<close> zero or negative no primary attempt is announced and no request
  is made for the primary provider. When the configured provider contains \<^verbatim>\<open>openai\<close> the
  fallback is still called, once: its text is returned if it succeeds, and the error
  \<^verbatim>\<open>'Failed to generate text after retries'\<close> is thrown if it fails. When no fallback applies
  that error is thrown and nothing at all has happened.\<close>

theorem no_primary_attempts:
  assumes "maxRetriesOf opts \<le> 0"
  shows "generateTextWithRetry apiKey net prompt opts w =
      (if includesStr (currentProvider (generateOptionsOf opts)) ''openai''
       then (case attemptOutcome apiKey net prompt (fallbackOptions opts) (fetchCount w) of
               Inr t \<Rightarrow> Inr t
             | Inl fallbackError \<Rightarrow> Inl RetriesFailed,
             w @ ConsoleFallback # callTrace apiKey prompt (fallbackOptions opts))
       else (Inl RetriesFailed, w))
     \<and> attemptsLogged (snd (generateTextWithRetry apiKey net prompt opts w)) = attemptsLogged w
     \<and> (includesStr (currentProvider (generateOptionsOf opts)) ''openai'' \<longrightarrow>
          requestsTo (providers (generateRequest prompt (generateOptionsOf opts)))
            (snd (generateTextWithRetry apiKey net prompt opts w)) =
          requestsTo (providers (generateRequest prompt (generateOptionsOf opts))) w)"
proof -
  note run = retry_none_run[OF assms, of apiKey net prompt w]
  have primary: "providers (generateRequest prompt (generateOptionsOf opts)) \<noteq> FALLBACK_PROVIDER"
    if "includesStr (currentProvider (generateOptionsOf opts)) ''openai''"
    using that by (rule primary_is_not_fallback)
  show ?thesis
    unfolding run using primary by auto
qed

theorem no_primary_attempts_witness:
  "maxRetriesOf (noRetryOptions\<lparr>maxRetries := Some 0\<rparr>) \<le> 0
   \<and> generateTextWithRetry (Some ''key'') (scriptedNet [okBody []]) ''hello''
        (noRetryOptions\<lparr>maxRetries := Some 0\<rparr>) [] =
      (Inl RetriesFailed,
       [ConsoleFallback, ConsoleRequest ''google/gemini-1.5-flash'' (3 / 10) 4000 5,
        Fetch (generateRequest ''hello'' (noOptions\<lparr>provider := Some ''google/gemini-1.5-flash''\<rparr>))])
   \<and> generateTextWithRetry (Some ''key'') (scriptedNet [okBody []]) ''hello''
        (noRetryOptions\<lparr>provider := Some ''google/gemini-1.5-flash'', maxRetries := Some (- 1)\<rparr>) [] =
      (Inl RetriesFailed, [])"
  using no_primary_attempts[of "noRetryOptions\<lparr>maxRetries := Some 0\<rparr>"
          "Some ''key''" "scriptedNet [okBody []]" "''hello''" "[]"]
        no_primary_attempts[of
          "noRetryOptions\<lparr>provider := Some ''google/gemini-1.5-flash'', maxRetries := Some (- 1)\<rparr>"
          "Some ''key''" "scriptedNet [okBody []]" "''hello''" "[]"]
  by (simp add: eval_defs Let_def)

text \<open>The errors of a call of \<^verbatim>\<open>generateText\<close>: those of \<^verbatim>\<open>parseJSONResponse\<close> are not
  among them.\<close>

lemma trimmedEmpty_error:
  "trimmedEmpty v = Inl e \<Longrightarrow> e = Thrown ''TypeError: generatedText.trim is not a function''"
  by (cases v) simp_all

lemma extractText_error:
  assumes "extractText p data = Inl e"
  shows "e \<noteq> InvalidJson \<and> e \<noteq> EmptyInput"
proof (cases "truthyOpt (map_of data p) \<or> CHR ''/'' \<in> set p \<and> truthyOpt (map_of data (baseProvider p))")
  case False
  with assms show ?thesis
    by (auto simp add: extractText_unmatched split: list.splits)
next
  case True
  have "\<exists>q v. extractText p data = extractText q [(q, v)] \<and> truthy v"
  proof (cases "truthyOpt (map_of data p)")
    case True
    then obtain v where "map_of data p = Some v" "truthy v"
      by (cases "map_of data p") auto
    then show ?thesis
      using extractText_exact[of data p v] by blast
  next
    case False
    with True obtain v where "CHR ''/'' \<in> set p" "map_of data (baseProvider p) = Some v" "truthy v"
      by (cases "map_of data (baseProvider p)") auto
    with False show ?thesis
      using extractText_base[of data p v] by blast
  qed
  then obtain q v where "extractText p data = extractText q [(q, v)]" and "truthy v"
    by blast
  with assms have "extractText q [(q, v)] = Inl e" and "truthy v"
    by simp_all
  then show ?thesis
    by (subst (asm) extractText_matched[of _ _ v])
       (auto split: if_splits json.splits)
qed

lemma attemptOutcome_error:
  assumes "attemptOutcome apiKey net prompt opts k = Inl e"
  shows "e \<noteq> InvalidJson \<and> e \<noteq> EmptyInput"
  using assms extractText_error
  by (auto simp add: attemptOutcome_def generateTextResponse_def
        split: if_splits fetch_outcome.splits sum.splits)

lemma attemptLoop_error:
  "nat (n + 1 - a) = m \<Longrightarrow>
   attemptLoop apiKey net prompt opts n a d le w = (Exhausted (Some e), w') \<Longrightarrow>
   le = Some e \<or> (\<exists>k. attemptOutcome apiKey net prompt opts k = Inl e)"
proof (induction m arbitrary: a d le w)
  case 0
  then show ?case by (simp add: attemptLoop_exhausted_now)
next
  case (Suc m)
  then have a: "a \<le> n" by simp
  show ?case
  proof (cases "attemptOutcome apiKey net prompt opts (fetchCount w)")
    case (Inr t)
    with a Suc.prems(2) show ?thesis by (simp add: attemptLoop_success)
  next
    case (Inl e')
    show ?thesis
    proof (cases "a < n")
      case True
      from Suc.prems(1) have m: "nat (n + 1 - (a + 1)) = m" by simp
      from Suc.prems(2) True Inl have
        "attemptLoop apiKey net prompt opts n (a + 1) (d * 2) (Some e')
           (w @ ConsoleAttempt a n # callTrace apiKey prompt opts @ [Sleep d]) = (Exhausted (Some e), w')"
        by (simp add: attemptLoop_failure_step)
      from Suc.IH[OF m this] Inl show ?thesis by auto
    next
      case False
      with a have "a = n" by simp
      with Inl Suc.prems(2) show ?thesis by (auto simp add: attemptLoop_last_failure)
    qed
  qed
qed

lemma generateTextWithRetry_error:
  assumes "fst (generateTextWithRetry apiKey net prompt opts w) = Inl e"
  shows "e \<noteq> InvalidJson \<and> e \<noteq> EmptyInput"
proof (cases "attemptLoop apiKey net prompt (generateOptionsOf opts) (maxRetriesOf opts) 1 1000 None w")
  case (Pair exit w')
  show ?thesis
  proof (cases exit)
    case (Returned t)
    with Pair assms show ?thesis by (simp add: generateTextWithRetry_def)
  next
    case (Exhausted le)
    with Pair assms have thrown: "e = (case le of Some err \<Rightarrow> err | None \<Rightarrow> RetriesFailed)"
      by (auto simp add: generateTextWithRetry_def generateText_eq Let_def
            split: if_splits sum.splits)
    show ?thesis
    proof (cases le)
      case None
      with thrown show ?thesis by simp
    next
      case (Some err)
      with Pair Exhausted attemptLoop_error[OF refl, of apiKey net prompt "generateOptionsOf opts"
              "maxRetriesOf opts" 1 1000 None w err w']
      obtain k where "attemptOutcome apiKey net prompt (generateOptionsOf opts) k = Inl err"
        by auto
      with thrown Some show ?thesis
        using attemptOutcome_error by auto
    qed
  qed
qed

text \<open>After \<open>k\<close> failed attempts, with attempts left, the loop has waited after each of them
  and makes the attempt \<open>k + 1\<close>.\<close>

lemma retry_continues:
  assumes "int k < n"
    and "\<forall>j<k. isl (attemptOutcome apiKey net prompt opts (fetchCount w + j))"
  shows "\<exists>rest. snd (attemptLoop apiKey net prompt opts n 1 1000 None w) =
           w @ concat (map (failedAttempt apiKey prompt opts n 1 1000) [0..<k])
             @ ConsoleAttempt (1 + int k) n # callTrace apiKey prompt opts @ rest"
proof -
  let ?w = "w @ concat (map (failedAttempt apiKey prompt opts n 1 1000) [0..<k])"
  let ?le = "if k = 0 then None
             else Some (projl (attemptOutcome apiKey net prompt opts (fetchCount w + (k - 1))))"
  let ?d = "1000 * 2 ^ k :: nat"
  have skip: "attemptLoop apiKey net prompt opts n 1 1000 None w =
              attemptLoop apiKey net prompt opts n (1 + int k) ?d ?le ?w"
    using assms by (intro attemptLoop_skip_failures) simp_all
  have "\<exists>rest. snd (attemptLoop apiKey net prompt opts n (1 + int k) ?d ?le ?w) =
          ?w @ ConsoleAttempt (1 + int k) n # callTrace apiKey prompt opts @ rest"
  proof (cases "attemptOutcome apiKey net prompt opts (fetchCount ?w)")
    case (Inr t)
    with assms(1) show ?thesis by (simp add: attemptLoop_success)
  next
    case (Inl e)
    show ?thesis
    proof (cases "1 + int k < n")
      case True
      obtain w' where
        "snd (attemptLoop apiKey net prompt opts n (1 + int k + 1) (?d * 2) (Some e)
               (?w @ ConsoleAttempt (1 + int k) n # callTrace apiKey prompt opts @ [Sleep ?d])) =
         (?w @ ConsoleAttempt (1 + int k) n # callTrace apiKey prompt opts @ [Sleep ?d]) @ w'"
        using attemptLoop_extends[OF refl] by blast
      with True Inl show ?thesis
        by (simp add: attemptLoop_failure_step)
    next
      case False
      with assms(1) have "1 + int k = n" by simp
      with Inl show ?thesis
        using attemptLoop_last_failure[of apiKey net prompt opts ?w e n ?d ?le] by simp
    qed
  qed
  with skip show ?thesis by simp
qed

text \<open>C5, as amended. The retry controller does not look at the error of a failed attempt: as
  long as attempts are left, a failure of any kind (a missing provider response as much as a
  transport error, an empty response or a provider error) is followed by the wait and by the
  next attempt. The errors of \<^verbatim>\<open>parseJSONResponse\<close> never arise in
  \<^verbatim>\<open>generateTextWithRetry\<close>, which does not call it.\<close>

theorem every_failure_is_retried:
  assumes "int k < maxRetriesOf opts"
    and "\<forall>j<k. isl (attemptOutcome apiKey net prompt (generateOptionsOf opts) (fetchCount w + j))"
  shows "(\<exists>rest. snd (generateTextWithRetry apiKey net prompt opts w) =
            w @ concat (map (\<lambda>j. ConsoleAttempt (1 + int j) (maxRetriesOf opts)
                                  # callTrace apiKey prompt (generateOptionsOf opts)
                                  @ [Sleep (1000 * 2 ^ j)]) [0..<k])
              @ ConsoleAttempt (1 + int k) (maxRetriesOf opts)
              # callTrace apiKey prompt (generateOptionsOf opts) @ rest)
     \<and> fst (generateTextWithRetry apiKey net prompt opts w) \<noteq> Inl InvalidJson
     \<and> fst (generateTextWithRetry apiKey net prompt opts w) \<noteq> Inl EmptyInput"
proof -
  from retry_continues[OF assms] obtain rest where
    "snd (attemptLoop apiKey net prompt (generateOptionsOf opts) (maxRetriesOf opts) 1 1000 None w) =
       w @ concat (map (failedAttempt apiKey prompt (generateOptionsOf opts) (maxRetriesOf opts) 1 1000)
                     [0..<k])
         @ ConsoleAttempt (1 + int k) (maxRetriesOf opts)
         # callTrace apiKey prompt (generateOptionsOf opts) @ rest"
    by blast
  moreover obtain w' where
    "snd (generateTextWithRetry apiKey net prompt opts w) =
       snd (attemptLoop apiKey net prompt (generateOptionsOf opts) (maxRetriesOf opts) 1 1000 None w) @ w'"
    using generateTextWithRetry_extends_loop by blast
  ultimately have "snd (generateTextWithRetry apiKey net prompt opts w) =
       w @ concat (map (failedAttempt apiKey prompt (generateOptionsOf opts) (maxRetriesOf opts) 1 1000)
                     [0..<k])
         @ ConsoleAttempt (1 + int k) (maxRetriesOf opts)
         # callTrace apiKey prompt (generateOptionsOf opts) @ (rest @ w')"
    by simp
  then have "\<exists>rest. snd (generateTextWithRetry apiKey net prompt opts w) =
       w @ concat (map (failedAttempt apiKey prompt (generateOptionsOf opts) (maxRetriesOf opts) 1 1000)
                     [0..<k])
         @ ConsoleAttempt (1 + int k) (maxRetriesOf opts)
         # callTrace apiKey prompt (generateOptionsOf opts) @ rest"
    by blast
  then show ?thesis
    using generateTextWithRetry_error[of apiKey net prompt opts w]
    by (auto simp add: failedAttempt_fun)
qed

theorem every_failure_is_retried_witness:
  "int 1 < maxRetriesOf noRetryOptions
   \<and> attemptOutcome (Some ''key'') (scriptedNet [okBody [], okBody [(''openai/gpt-4o-mini'', hiEntry)]])
        ''hello'' (generateOptionsOf noRetryOptions) 0
       = Inl (NoProviderResponse ''openai/gpt-4o-mini'' (Some []))
   \<and> (\<exists>rest. snd (generateTextWithRetry (Some ''key'')
                    (scriptedNet [okBody [], okBody [(''openai/gpt-4o-mini'', hiEntry)]])
                    ''hello'' noRetryOptions []) =
         [ConsoleAttempt 1 3, ConsoleRequest ''openai/gpt-4o-mini'' (3 / 10) 4000 5,
          Fetch (generateRequest ''hello'' noOptions), Sleep 1000,
          ConsoleAttempt 2 3, ConsoleRequest ''openai/gpt-4o-mini'' (3 / 10) 4000 5,
          Fetch (generateRequest ''hello'' noOptions)] @ rest)"
proof -
  let ?net = "scriptedNet [okBody [], okBody [(''openai/gpt-4o-mini'', hiEntry)]]"
  have k: "int 1 < maxRetriesOf noRetryOptions"
    by (simp add: maxRetriesOf_def noRetryOptions_def)
  have f0: "attemptOutcome (Some ''key'') ?net ''hello'' (generateOptionsOf noRetryOptions) 0
       = Inl (NoProviderResponse ''openai/gpt-4o-mini'' (Some []))"
    by (simp add: eval_defs)
  then have fails: "\<forall>j<1. isl (attemptOutcome (Some ''key'') ?net ''hello''
                      (generateOptionsOf noRetryOptions) (fetchCount [] + j))"
    by simp
  from every_failure_is_retried[OF k fails] obtain rest where
    "snd (generateTextWithRetry (Some ''key'') ?net ''hello'' noRetryOptions []) =
       [] @ concat (map (\<lambda>j. ConsoleAttempt (1 + int j) (maxRetriesOf noRetryOptions)
                              # callTrace (Some ''key'') ''hello'' (generateOptionsOf noRetryOptions)
                              @ [Sleep (1000 * 2 ^ j)]) [0..<1])
         @ ConsoleAttempt (1 + int 1) (maxRetriesOf noRetryOptions)
         # callTrace (Some ''key'') ''hello'' (generateOptionsOf noRetryOptions) @ rest"
    by blast
  then have "snd (generateTextWithRetry (Some ''key'') ?net ''hello'' noRetryOptions []) =
         [ConsoleAttempt 1 3, ConsoleRequest ''openai/gpt-4o-mini'' (3 / 10) 4000 5,
          Fetch (generateRequest ''hello'' noOptions), Sleep 1000,
          ConsoleAttempt 2 3, ConsoleRequest ''openai/gpt-4o-mini'' (3 / 10) 4000 5,
          Fetch (generateRequest ''hello'' noOptions)] @ rest"
    by (simp add: eval_defs Let_def)
  with k f0 show ?thesis
    by blast
qed

text \<open>C5, as stated, fails: the first attempt finds no provider response, the controller waits
  and tries again, and the invocation returns the text of the second attempt.\<close>

theorem no_provider_response_is_retried:
  "attemptOutcome (Some ''key'') (scriptedNet [okBody [], okBody [(''openai/gpt-4o-mini'', hiEntry)]])
     ''hello'' (generateOptionsOf noRetryOptions) 0
    = Inl (NoProviderResponse ''openai/gpt-4o-mini'' (Some []))
   \<and> generateTextWithRetry (Some ''key'')
        (scriptedNet [okBody [], okBody [(''openai/gpt-4o-mini'', hiEntry)]])
        ''hello'' noRetryOptions [] =
      (Inr (JStr ''hi''),
       [ConsoleAttempt 1 3, ConsoleRequest ''openai/gpt-4o-mini'' (3 / 10) 4000 5,
        Fetch (generateRequest ''hello'' noOptions), Sleep 1000,
        ConsoleAttempt 2 3, ConsoleRequest ''openai/gpt-4o-mini'' (3 / 10) 4000 5,
        Fetch (generateRequest ''hello'' noOptions)])"
proof -
  let ?net = "scriptedNet [okBody [], okBody [(''openai/gpt-4o-mini'', hiEntry)]]"
  let ?g = "generateOptionsOf noRetryOptions"
  have f0: "attemptOutcome (Some ''key'') ?net ''hello'' ?g 0
       = Inl (NoProviderResponse ''openai/gpt-4o-mini'' (Some []))"
    by (simp add: eval_defs)
  have f1: "attemptOutcome (Some ''key'') ?net ''hello'' ?g (Suc 0) = Inr (JStr ''hi'')"
    by (simp add: eval_defs)
  have step: "attemptLoop (Some ''key'') ?net ''hello'' ?g 3 1 1000 None [] =
      attemptLoop (Some ''key'') ?net ''hello'' ?g 3 (1 + 1) (1000 * 2)
        (Some (NoProviderResponse ''openai/gpt-4o-mini'' (Some [])))
        ([] @ ConsoleAttempt 1 3 # callTrace (Some ''key'') ''hello'' ?g @ [Sleep 1000])"
    using f0 by (intro attemptLoop_failure_step) simp_all
  have fin: "attemptLoop (Some ''key'') ?net ''hello'' ?g 3 (1 + 1) (1000 * 2)
        (Some (NoProviderResponse ''openai/gpt-4o-mini'' (Some [])))
        ([] @ ConsoleAttempt 1 3 # callTrace (Some ''key'') ''hello'' ?g @ [Sleep 1000]) =
      (Returned (JStr ''hi''),
       ([] @ ConsoleAttempt 1 3 # callTrace (Some ''key'') ''hello'' ?g @ [Sleep 1000])
         @ ConsoleAttempt (1 + 1) 3 # callTrace (Some ''key'') ''hello'' ?g)"
    using f1 by (intro attemptLoop_success) (simp_all add: fetchCount_callTrace)
  have n: "maxRetriesOf noRetryOptions = 3"
    by (simp add: maxRetriesOf_def noRetryOptions_def)
  have "generateTextWithRetry (Some ''key'') ?net ''hello'' noRetryOptions [] =
      (Inr (JStr ''hi''),
       ([] @ ConsoleAttempt 1 3 # callTrace (Some ''key'') ''hello'' ?g @ [Sleep 1000])
         @ ConsoleAttempt (1 + 1) 3 # callTrace (Some ''key'') ''hello'' ?g)"
    by (simp only: generateTextWithRetry_def n step fin prod.case loop_exit.case)
  with f0 show ?thesis
    by (simp add: eval_defs Let_def)
qed

text \<open>C4 fails on the code. \<^verbatim>\<open>chat\<close> answers a reported failure of the provider with the
  empty text as a success: it has neither the status check nor the empty check of its sibling
  \<^verbatim>\<open>generateText\<close>. \<^verbatim>\<open>generateText\<close> itself, and \<^verbatim>\<open>generateTextWithRetry\<close> with
  it, return a text of spaces found by the scan of the other keys.\<close>

theorem chat_returns_empty_text:
  "fst (chat (Some ''key'') (scriptedNet [okBody [(''openai/gpt-4o-mini'', quotaEntry)]])
          [\<lparr>role = User, content = ''hello''\<rparr>] noOptions []) = Inr (JStr [])
   \<and> fst (generateText (Some ''key'')
            (scriptedNet [okBody [(''google'', JObj [(''generated_text'', JStr ''   '')])]])
            ''hello'' noOptions []) = Inr (JStr ''   '')
   \<and> fst (generateTextWithRetry (Some ''key'')
            (scriptedNet [okBody [(''google'', JObj [(''generated_text'', JStr ''   '')])]])
            ''hello'' noRetryOptions []) = Inr (JStr ''   '')"
proof -
  let ?net = "scriptedNet [okBody [(''google'', JObj [(''generated_text'', JStr ''   '')])]]"
  have c: "fst (chat (Some ''key'') (scriptedNet [okBody [(''openai/gpt-4o-mini'', quotaEntry)]])
          [\<lparr>role = User, content = ''hello''\<rparr>] noOptions []) = Inr (JStr [])"
    by (simp add: chat_def chatResponse_def Let_def eval_defs)
  have g: "attemptOutcome (Some ''key'') ?net ''hello'' noOptions 0 = Inr (JStr ''   '')"
    by (simp add: eval_defs)
  have g': "attemptOutcome (Some ''key'') ?net ''hello'' (generateOptionsOf noRetryOptions) (fetchCount [])
              = Inr (JStr ''   '')"
    by (simp add: eval_defs)
  have "attemptLoop (Some ''key'') ?net ''hello'' (generateOptionsOf noRetryOptions)
          (maxRetriesOf noRetryOptions) 1 1000 None [] =
        (Returned (JStr ''   ''),
         [] @ ConsoleAttempt 1 (maxRetriesOf noRetryOptions)
              # callTrace (Some ''key'') ''hello'' (generateOptionsOf noRetryOptions))"
    using g' by (intro attemptLoop_success) (simp_all add: maxRetriesOf_def noRetryOptions_def)
  then have r: "fst (generateTextWithRetry (Some ''key'') ?net ''hello'' noRetryOptions []) =
                  Inr (JStr ''   '')"
    by (simp add: generateTextWithRetry_def)
  from c g r show ?thesis
    by (simp add: generateText_eq)
qed

section \<open>The code fences\<close>

lemma matchesAt_startsWith: "matchesAt (=) p s = startsWith s p"
  by (induction s p rule: startsWith.induct) simp_all

lemma startsWith_append: "startsWith s p \<Longrightarrow> startsWith (s @ t) p"
  by (induction s p rule: startsWith.induct) simp_all

lemma includesStr_append_right: "includesStr s p \<Longrightarrow> includesStr (s @ t) p"
proof (induction s)
  case Nil
  then show ?case by (cases t) simp_all
next
  case (Cons c cs)
  then show ?case by (auto dest: startsWith_append[of "c # cs" p t])
qed

lemma includesStr_append_left: "includesStr s p \<Longrightarrow> includesStr (t @ s) p"
  by (induction t) simp_all

text \<open>The trimmed text is a part of the text.\<close>

lemma trim_part: "\<exists>pre post. s = pre @ trim s @ post"
proof -
  let ?u = "dropWhile isWhiteSpace s"
  have "?u = rev (takeWhile isWhiteSpace (rev ?u) @ dropWhile isWhiteSpace (rev ?u))"
    by simp
  also have "\<dots> = trim s @ rev (takeWhile isWhiteSpace (rev ?u))"
    by (simp only: rev_append trim_def)
  finally have "s = takeWhile isWhiteSpace s @ trim s @ rev (takeWhile isWhiteSpace (rev ?u))"
    using takeWhile_dropWhile_id[of isWhiteSpace s] by simp
  then show ?thesis by blast
qed

lemma includesStr_part: "includesStr m p \<Longrightarrow> includesStr (pre @ m @ post) p"
  by (intro includesStr_append_left includesStr_append_right)

text \<open>What \<^verbatim>\<open>replace(/```/g, '')\<close> leaves has no fence in it.\<close>

lemma removeAll_fence_start:
  "\<not> startsWith cs ''``'' \<Longrightarrow> \<not> startsWith (removeAll (=) ''```'' cs) ''``''"
proof (cases cs)
  case Nil
  then show ?thesis by simp
next
  case (Cons x xs)
  assume no: "\<not> startsWith cs ''``''"
  show ?thesis
  proof (cases xs)
    case Nil
    with Cons show ?thesis by simp
  next
    case inner: (Cons y ys)
    with Cons no have "\<not> (x = CHR 0x60 \<and> y = CHR 0x60)"
      by simp
    with Cons inner show ?thesis
      by auto
  qed
qed

lemma removeAll_no_fence: "\<not> includesStr (removeAll (=) ''```'' s) ''```''"
proof (induction "(=) :: char \<Rightarrow> char \<Rightarrow> bool" "''```''" s rule: removeAll.induct)
  case 1
  show ?case by simp
next
  case (2 c cs)
  show ?case
  proof (cases "matchesAt (=) ''```'' (c # cs)")
    case True
    with 2(1) show ?thesis by simp
  next
    case False
    then have kept: "removeAll (=) ''```'' (c # cs) = c # removeAll (=) ''```'' cs"
      by auto
    from False have "c = CHR 0x60 \<Longrightarrow> \<not> startsWith cs ''``''"
      by (simp add: matchesAt_startsWith)
    then have "\<not> startsWith (c # removeAll (=) ''```'' cs) ''```''"
      using removeAll_fence_start[of cs] by auto
    moreover have "\<not> includesStr (removeAll (=) ''```'' cs) ''```''"
      using False 2(2) by simp
    ultimately show ?thesis
      unfolding kept by simp
  qed
qed

lemma cleanedText_no_fence: "\<not> includesStr (cleanedText response) ''```''"
proof
  assume "includesStr (cleanedText response) ''```''"
  moreover obtain pre post where
    "removeAll (=) ''```'' (removeAll ciEq ''```json'' response) = pre @ cleanedText response @ post"
    unfolding cleanedText_def using trim_part by blast
  ultimately have "includesStr (removeAll (=) ''```'' (removeAll ciEq ''```json'' response)) ''```''"
    using includesStr_part[of "cleanedText response" "''```''" pre post] by simp
  then show False
    using removeAll_no_fence by blast
qed

section \<open>The stages of the JSON extraction\<close>

text \<open>A literal pattern matches where its first character does and the rest matches after it.\<close>

lemma matchesAt_Cons:
  "matchesAt eq (p # ps) s \<longleftrightarrow> (\<exists>c cs. s = c # cs \<and> eq c p \<and> matchesAt eq ps cs)"
  by (cases s) simp_all

text \<open>Where \<^verbatim>\<open>/```json/i\<close> matches: three backquotes and the four letters, small or capital.\<close>

lemma matchesAt_jsonFence:
  "matchesAt ciEq ''```json'' s \<longleftrightarrow>
     (\<exists>a b c d rest. s = ''```'' @ a # b # c # d # rest
        \<and> a \<in> {CHR ''j'', CHR ''J''} \<and> b \<in> {CHR ''s'', CHR ''S''}
        \<and> c \<in> {CHR ''o'', CHR ''O''} \<and> d \<in> {CHR ''n'', CHR ''N''})"
  by (simp only: matchesAt_Cons matchesAt.simps(1)) auto

lemma matchesAt_fence:
  "matchesAt (=) ''```'' s \<longleftrightarrow> (\<exists>rest. s = ''```'' @ rest)"
  by (simp only: matchesAt_Cons matchesAt.simps(1)) auto

text \<open>The two removals, a match at a time.\<close>

lemma removeAll_jsonFence_match:
  assumes "a \<in> {CHR ''j'', CHR ''J''}" and "b \<in> {CHR ''s'', CHR ''S''}"
    and "c \<in> {CHR ''o'', CHR ''O''}" and "d \<in> {CHR ''n'', CHR ''N''}"
  shows "removeAll ciEq ''```json'' (''```'' @ a # b # c # d # rest) = removeAll ciEq ''```json'' rest"
proof -
  have "matchesAt ciEq ''```json'' (''```'' @ a # b # c # d # rest)"
    unfolding matchesAt_jsonFence using assms by blast
  then show ?thesis by simp
qed

lemma removeAll_jsonFence_keep:
  assumes "\<not> (\<exists>a b c d rest. x # xs = ''```'' @ a # b # c # d # rest
        \<and> a \<in> {CHR ''j'', CHR ''J''} \<and> b \<in> {CHR ''s'', CHR ''S''}
        \<and> c \<in> {CHR ''o'', CHR ''O''} \<and> d \<in> {CHR ''n'', CHR ''N''})"
  shows "removeAll ciEq ''```json'' (x # xs) = x # removeAll ciEq ''```json'' xs"
proof -
  have "\<not> matchesAt ciEq ''```json'' (x # xs)"
    unfolding matchesAt_jsonFence using assms by blast
  then show ?thesis
    by (subst removeAll.simps) (simp only: if_False simp_thms)
qed

lemma removeAll_fence_match:
  "removeAll (=) ''```'' (''```'' @ rest) = removeAll (=) ''```'' rest"
  by simp

lemma removeAll_fence_keep:
  assumes "\<not> (\<exists>rest. x # xs = ''```'' @ rest)"
  shows "removeAll (=) ''```'' (x # xs) = x # removeAll (=) ''```'' xs"
proof -
  have "\<not> matchesAt (=) ''```'' (x # xs)"
    unfolding matchesAt_fence using assms by blast
  then show ?thesis
    by (subst removeAll.simps) (simp only: if_False simp_thms)
qed

text \<open>The trimmed text: the text without the white space at its two ends.\<close>

lemma trim_spec:
  "\<exists>pre post. s = pre @ trim s @ post \<and> blank pre \<and> blank post
     \<and> (trim s \<noteq> [] \<longrightarrow> \<not> isWhiteSpace (hd (trim s)) \<and> \<not> isWhiteSpace (last (trim s)))"
proof -
  let ?u = "dropWhile isWhiteSpace s"
  let ?post = "rev (takeWhile isWhiteSpace (rev ?u))"
  have u: "?u = trim s @ ?post"
    unfolding trim_def rev_append[symmetric] by simp
  then have s: "s = takeWhile isWhiteSpace s @ trim s @ ?post"
    using takeWhile_dropWhile_id[of isWhiteSpace s] by simp
  have pre: "blank (takeWhile isWhiteSpace s)"
    using set_takeWhileD[of _ isWhiteSpace s] by (auto simp add: blank_def)
  have post: "blank ?post"
    using set_takeWhileD[of _ isWhiteSpace "rev ?u"] by (auto simp add: blank_def)
  have ends: "\<not> isWhiteSpace (hd (trim s)) \<and> \<not> isWhiteSpace (last (trim s))" if ne: "trim s \<noteq> []"
  proof -
    from ne have d: "dropWhile isWhiteSpace (rev ?u) \<noteq> []"
      by (simp add: trim_def)
    then have "\<not> isWhiteSpace (hd (dropWhile isWhiteSpace (rev ?u)))"
      by (rule hd_dropWhile)
    with d have l: "\<not> isWhiteSpace (last (trim s))"
      by (simp add: trim_def last_rev)
    from ne u have "?u \<noteq> []" and "hd ?u = hd (trim s)"
      by (metis append_is_Nil_conv, metis hd_append2)
    then have "\<not> isWhiteSpace (hd (trim s))"
      using hd_dropWhile[of isWhiteSpace s] by simp
    with l show ?thesis by simp
  qed
  from s pre post ends show ?thesis
    by blast
qed

text \<open>The span: there is none exactly when no brace or bracket of the text has a closing
  character of its kind after it.\<close>

lemma jsonMatch_None:
  "jsonMatch s = None \<longleftrightarrow>
     (\<forall>p1 c p2. s = p1 @ c # p2 \<longrightarrow>
        (c = CHR ''{'' \<longrightarrow> CHR ''}'' \<notin> set p2) \<and> (c = CHR ''['' \<longrightarrow> CHR '']'' \<notin> set p2))"
proof (induction s)
  case Nil
  show ?case by simp
next
  case (Cons x rest)
  define ok where "ok c p2 \<longleftrightarrow>
      (c = CHR ''{'' \<longrightarrow> CHR ''}'' \<notin> set p2) \<and> (c = CHR ''['' \<longrightarrow> CHR '']'' \<notin> set p2)"
    for c :: char and p2 :: string
  have split: "(\<forall>p1 c p2. x # rest = p1 @ c # p2 \<longrightarrow> ok c p2) \<longleftrightarrow>
               ok x rest \<and> (\<forall>p1 c p2. rest = p1 @ c # p2 \<longrightarrow> ok c p2)"
  proof (rule iffI)
    assume all: "\<forall>p1 c p2. x # rest = p1 @ c # p2 \<longrightarrow> ok c p2"
    from all[rule_format, of "[]" x rest] have "ok x rest" by simp
    moreover have "ok c p2" if "rest = p1 @ c # p2" for p1 c p2
      using all[rule_format, of "x # p1" c p2] that by simp
    ultimately show "ok x rest \<and> (\<forall>p1 c p2. rest = p1 @ c # p2 \<longrightarrow> ok c p2)"
      by blast
  next
    assume both: "ok x rest \<and> (\<forall>p1 c p2. rest = p1 @ c # p2 \<longrightarrow> ok c p2)"
    have "ok c p2" if eq: "x # rest = p1 @ c # p2" for p1 c p2
    proof (cases p1)
      case Nil
      with eq both show ?thesis by simp
    next
      case (Cons y p1')
      with eq have "rest = p1' @ c # p2" by simp
      with both show ?thesis by blast
    qed
    then show "\<forall>p1 c p2. x # rest = p1 @ c # p2 \<longrightarrow> ok c p2"
      by blast
  qed
  have "jsonMatch (x # rest) = None \<longleftrightarrow> ok x rest \<and> jsonMatch rest = None"
    by (auto simp add: ok_def)
  with Cons.IH split show ?case
    unfolding ok_def by simp
qed

text \<open>The repair, a comma at a time: a comma, white space and the closing character lose the
  comma and the white space; any other character is kept.\<close>

lemma before_close:
  assumes "\<not> isWhiteSpace close"
  shows "(case dropWhile isWhiteSpace cs of [] \<Rightarrow> False | x # rest \<Rightarrow> x = close) \<longleftrightarrow>
         (\<exists>ws rest. blank ws \<and> cs = ws @ close # rest)"
proof
  assume "case dropWhile isWhiteSpace cs of [] \<Rightarrow> False | x # rest \<Rightarrow> x = close"
  then obtain rest where "dropWhile isWhiteSpace cs = close # rest"
    by (cases "dropWhile isWhiteSpace cs") auto
  then have "cs = takeWhile isWhiteSpace cs @ close # rest"
    using takeWhile_dropWhile_id[of isWhiteSpace cs] by simp
  moreover have "blank (takeWhile isWhiteSpace cs)"
    using set_takeWhileD[of _ isWhiteSpace cs] by (auto simp add: blank_def)
  ultimately show "\<exists>ws rest. blank ws \<and> cs = ws @ close # rest"
    by blast
next
  assume "\<exists>ws rest. blank ws \<and> cs = ws @ close # rest"
  then obtain ws rest where "blank ws" "cs = ws @ close # rest"
    by blast
  then have "dropWhile isWhiteSpace cs = close # rest"
    using assms by (simp add: blank_def dropWhile_append2)
  then show "case dropWhile isWhiteSpace cs of [] \<Rightarrow> False | x # rest \<Rightarrow> x = close"
    by simp
qed

lemma removeTrailingCommas_match:
  assumes "\<not> isWhiteSpace close" and "blank ws"
  shows "removeTrailingCommas close (CHR '','' # ws @ close # rest) =
           close # removeTrailingCommas close rest"
proof -
  from assms have "dropWhile isWhiteSpace (ws @ close # rest) = close # rest"
    by (simp add: blank_def dropWhile_append2)
  then show ?thesis
    by (subst removeTrailingCommas.simps) simp
qed

lemma removeTrailingCommas_keep:
  assumes "\<not> isWhiteSpace close"
    and "\<not> (c = CHR '','' \<and> (\<exists>ws rest. blank ws \<and> cs = ws @ close # rest))"
  shows "removeTrailingCommas close (c # cs) = c # removeTrailingCommas close cs"
proof -
  from assms have "\<not> (c = CHR '','' \<and>
      (case dropWhile isWhiteSpace cs of [] \<Rightarrow> False | x # rest \<Rightarrow> x = close))"
    using before_close[OF assms(1), of cs] by blast
  then show ?thesis
    by (subst removeTrailingCommas.simps) (simp only: if_False simp_thms)
qed

lemma closers_not_white: "\<not> isWhiteSpace CHR ''}''" "\<not> isWhiteSpace CHR '']''"
  by (simp_all add: isWhiteSpace_def)

section \<open>The JSON extraction\<close>

lemma blank_Nil [simp]: "blank []"
  by (simp add: blank_def)

lemma parseJSONResponse_eq:
  "parseJSONResponse P response =
     (if blank response then Inl EmptyInput
      else (case P (candidate response) of
              Some v \<Rightarrow> Inr v
            | None \<Rightarrow> (case P (repaired (candidate response)) of
                         Some v \<Rightarrow> Inr v
                       | None \<Rightarrow> Inl InvalidJson)))"
proof -
  have "response = [] \<or> length (trim response) = 0 \<longleftrightarrow> blank response"
    using trim_empty[of response] by auto
  then show ?thesis
    unfolding parseJSONResponse_def candidate_def cleanedText_def repaired_def Let_def
    by simp
qed

text \<open>The greedy match ends at the last closing character of the text.\<close>

lemma greedyTo_split:
  assumes "close \<in> set rest"
  shows "\<exists>post. rest = greedyTo close rest @ post \<and> close \<notin> set post"
    and "greedyTo close rest \<noteq> []"
    and "last (greedyTo close rest) = close"
proof -
  let ?P = "\<lambda>c. c \<noteq> close"
  let ?xs = "rev rest"
  have split: "rest = greedyTo close rest @ rev (takeWhile ?P ?xs)"
    unfolding greedyTo_def rev_append[symmetric] by simp
  have "close \<notin> set (rev (takeWhile ?P ?xs))"
    using set_takeWhileD[of close ?P ?xs] by auto
  with split show "\<exists>post. rest = greedyTo close rest @ post \<and> close \<notin> set post"
    by blast
  have nonempty: "dropWhile ?P ?xs \<noteq> []"
    using assms by (auto simp add: dropWhile_eq_Nil_conv)
  then show "greedyTo close rest \<noteq> []"
    by (simp add: greedyTo_def)
  from nonempty have "\<not> ?P (hd (dropWhile ?P ?xs))"
    by (rule hd_dropWhile)
  with nonempty show "last (greedyTo close rest) = close"
    by (simp add: greedyTo_def last_rev)
qed

text \<open>The span selected: it opens at the first brace or bracket that has a closing character
  of its kind somewhere after it, and runs to the last such closing character.\<close>

lemma jsonMatch_Some:
  "jsonMatch s = Some m \<Longrightarrow>
   \<exists>pre post. s = pre @ m @ post \<and> 2 \<le> length m
     \<and> (hd m = CHR ''{'' \<and> last m = CHR ''}'' \<and> CHR ''}'' \<notin> set post
        \<or> hd m = CHR ''['' \<and> last m = CHR '']'' \<and> CHR '']'' \<notin> set post)
     \<and> (\<forall>p1 c p2. pre = p1 @ c # p2 \<longrightarrow>
           (c = CHR ''{'' \<longrightarrow> CHR ''}'' \<notin> set (p2 @ m @ post))
           \<and> (c = CHR ''['' \<longrightarrow> CHR '']'' \<notin> set (p2 @ m @ post)))"
proof (induction s)
  case Nil
  then show ?case by simp
next
  case (Cons x rest)
  consider (brace) "x = CHR ''{''" "CHR ''}'' \<in> set rest"
    | (bracket) "\<not> (x = CHR ''{'' \<and> CHR ''}'' \<in> set rest)" "x = CHR ''[''" "CHR '']'' \<in> set rest"
    | (skip) "\<not> (x = CHR ''{'' \<and> CHR ''}'' \<in> set rest)" "\<not> (x = CHR ''['' \<and> CHR '']'' \<in> set rest)"
    by blast
  then show ?case
  proof cases
    case brace
    with Cons.prems have m: "m = x # greedyTo CHR ''}'' rest"
      by simp
    from greedyTo_split[OF brace(2)] obtain post where
      "rest = greedyTo CHR ''}'' rest @ post" "CHR ''}'' \<notin> set post"
      "greedyTo CHR ''}'' rest \<noteq> []" "last (greedyTo CHR ''}'' rest) = CHR ''}''"
      by blast
    with m brace(1) have "x # rest = [] @ m @ post \<and> 2 \<le> length m
        \<and> hd m = CHR ''{'' \<and> last m = CHR ''}'' \<and> CHR ''}'' \<notin> set post"
      by (cases "greedyTo CHR ''}'' rest") auto
    then show ?thesis
      by (intro exI[of _ "[]"] exI[of _ post]) simp
  next
    case bracket
    with Cons.prems have m: "m = x # greedyTo CHR '']'' rest"
      by auto
    from greedyTo_split[OF bracket(3)] obtain post where
      "rest = greedyTo CHR '']'' rest @ post" "CHR '']'' \<notin> set post"
      "greedyTo CHR '']'' rest \<noteq> []" "last (greedyTo CHR '']'' rest) = CHR '']''"
      by blast
    with m bracket(2) have "x # rest = [] @ m @ post \<and> 2 \<le> length m
        \<and> hd m = CHR ''['' \<and> last m = CHR '']'' \<and> CHR '']'' \<notin> set post"
      by (cases "greedyTo CHR '']'' rest") auto
    then show ?thesis
      by (intro exI[of _ "[]"] exI[of _ post]) simp
  next
    case skip
    with Cons.prems have "jsonMatch rest = Some m"
      by auto
    from Cons.IH[OF this] obtain pre post where
      rest: "rest = pre @ m @ post" and len: "2 \<le> length m"
      and ends: "hd m = CHR ''{'' \<and> last m = CHR ''}'' \<and> CHR ''}'' \<notin> set post
                 \<or> hd m = CHR ''['' \<and> last m = CHR '']'' \<and> CHR '']'' \<notin> set post"
      and first: "\<forall>p1 c p2. pre = p1 @ c # p2 \<longrightarrow>
           (c = CHR ''{'' \<longrightarrow> CHR ''}'' \<notin> set (p2 @ m @ post))
           \<and> (c = CHR ''['' \<longrightarrow> CHR '']'' \<notin> set (p2 @ m @ post))"
      by blast
    have "(c = CHR ''{'' \<longrightarrow> CHR ''}'' \<notin> set (p2 @ m @ post))
           \<and> (c = CHR ''['' \<longrightarrow> CHR '']'' \<notin> set (p2 @ m @ post))"
      if "x # pre = p1 @ c # p2" for p1 c p2
    proof (cases p1)
      case Nil
      with that have "c = x" "p2 = pre" by simp_all
      with skip rest show ?thesis by auto
    next
      case (Cons y p1')
      with that have "pre = p1' @ c # p2" by simp
      with first show ?thesis by blast
    qed
    with rest len ends show ?thesis
      by (intro exI[of _ "x # pre"] exI[of _ post]) simp
  qed
qed

lemma removeTrailingCommas_no_comma:
  "CHR '','' \<notin> set s \<Longrightarrow> removeTrailingCommas close s = s"
  by (induction s) auto

lemma repaired_no_comma: "CHR '','' \<notin> set s \<Longrightarrow> repaired s = s"
  by (simp add: repaired_def removeTrailingCommas_no_comma)

lemma candidate_no_fence: "\<not> includesStr (candidate response) ''```''"
proof (cases "jsonMatch (cleanedText response)")
  case None
  then show ?thesis
    using cleanedText_no_fence[of response] by (simp add: candidate_def)
next
  case (Some m)
  from jsonMatch_Some[OF this] obtain pre post where "cleanedText response = pre @ m @ post"
    by blast
  then have "includesStr m ''```'' \<Longrightarrow> includesStr (cleanedText response) ''```''"
    using includesStr_part[of m "''```''" pre post] by simp
  with Some show ?thesis
    using cleanedText_no_fence[of response] by (auto simp add: candidate_def)
qed

lemmas parse_defs =
  cleanedText_def candidate_def repaired_def trim_def isWhiteSpace_def greedyTo_def parserOf_def

text \<open>C7, as amended. A blank input fails with \<open>EmptyInput\<close> whatever the parser. Otherwise the
  code fences are removed, first \<^verbatim>\<open>```json\<close> with its letters small or capital, then
  \<^verbatim>\<open>```\<close> (none is left), and the text is trimmed. The candidate handed to the parser is
  the span from the first brace (or bracket) that has a closing brace (bracket) somewhere
  after it to the \<^emph>\<open>last\<close> closing brace (bracket) of the text, whether or not the braces in
  between nest; there is no such span exactly when no brace or bracket of the cleaned text
  has a closing character of its kind after it, and the candidate is then the whole cleaned
  text. If the parser rejects the candidate, the candidate is repaired once, every comma
  followed by white space and a closing brace losing the comma and the white space, then the
  same before a closing bracket, and the repaired text is parsed, once; \<open>InvalidJson\<close> is the
  result exactly when both parses fail. For the fenced text of the specification the
  candidate is \<^verbatim>\<open>{"a":1,}\<close> and the repaired text \<^verbatim>\<open>{"a":1}\<close>, so that, the first being
  no JSON, the result is the parse of the second.\<close>

theorem json_extraction:
  \<open>(blank response \<longrightarrow> parseJSONResponse P response = Inl EmptyInput)
   \<and> (\<not> blank response \<longrightarrow>
        parseJSONResponse P response =
          (case P (candidate response) of
             Some v \<Rightarrow> Inr v
           | None \<Rightarrow> (case P (repaired (candidate response)) of
                        Some v \<Rightarrow> Inr v
                      | None \<Rightarrow> Inl InvalidJson)))
   \<and> (parseJSONResponse P response = Inl InvalidJson \<longleftrightarrow>
        \<not> blank response \<and> P (candidate response) = None
        \<and> P (repaired (candidate response)) = None)
   \<and> \<not> includesStr (cleanedText response) ''```''
   \<and> \<not> includesStr (candidate response) ''```''
   \<and> (jsonMatch (cleanedText response) = None \<longrightarrow> candidate response = cleanedText response)
   \<and> (\<forall>m. jsonMatch (cleanedText response) = Some m \<longrightarrow>
          candidate response = m
          \<and> (\<exists>pre post. cleanedText response = pre @ m @ post \<and> 2 \<le> length m
                \<and> (hd m = CHR ''{'' \<and> last m = CHR ''}'' \<and> CHR ''}'' \<notin> set post
                   \<or> hd m = CHR ''['' \<and> last m = CHR '']'' \<and> CHR '']'' \<notin> set post)
                \<and> (\<forall>p1 c p2. pre = p1 @ c # p2 \<longrightarrow>
                      (c = CHR ''{'' \<longrightarrow> CHR ''}'' \<notin> set (p2 @ m @ post))
                      \<and> (c = CHR ''['' \<longrightarrow> CHR '']'' \<notin> set (p2 @ m @ post)))))
   \<and> (CHR '','' \<notin> set (candidate response) \<longrightarrow> repaired (candidate response) = candidate response)
   \<and> candidate ''```json\<newline>{"a":1,}\<newline>```'' = ''{"a":1,}''
   \<and> repaired ''{"a":1,}'' = ''{"a":1}''
   \<and> (P ''{"a":1,}'' = None \<longrightarrow>
        parseJSONResponse P ''```json\<newline>{"a":1,}\<newline>```'' =
          (case P ''{"a":1}'' of Some v \<Rightarrow> Inr v | None \<Rightarrow> Inl InvalidJson))
   \<and> (jsonMatch (cleanedText response) = None \<longleftrightarrow>
        (\<forall>p1 c p2. cleanedText response = p1 @ c # p2 \<longrightarrow>
           (c = CHR ''{'' \<longrightarrow> CHR ''}'' \<notin> set p2) \<and> (c = CHR ''['' \<longrightarrow> CHR '']'' \<notin> set p2)))
   \<and> (blank response \<longleftrightarrow> (\<forall>c \<in> set response. isWhiteSpace c))
   \<and> (isWhiteSpace x \<longleftrightarrow>
        x \<in> {CHR 0x09, CHR 0x0A, CHR 0x0B, CHR 0x0C, CHR 0x0D, CHR 0x20, CHR 0xA0})
   \<and> cleanedText response = trim (removeAll (=) ''```'' (removeAll ciEq ''```json'' response))
   \<and> removeAll ciEq ''```json'' [] = []
   \<and> (\<forall>a b c d rest.
          a \<in> {CHR ''j'', CHR ''J''} \<and> b \<in> {CHR ''s'', CHR ''S''}
          \<and> c \<in> {CHR ''o'', CHR ''O''} \<and> d \<in> {CHR ''n'', CHR ''N''} \<longrightarrow>
          removeAll ciEq ''```json'' (''```'' @ a # b # c # d # rest) = removeAll ciEq ''```json'' rest)
   \<and> (\<forall>y ys.
          \<not> (\<exists>a b c d rest. y # ys = ''```'' @ a # b # c # d # rest
                \<and> a \<in> {CHR ''j'', CHR ''J''} \<and> b \<in> {CHR ''s'', CHR ''S''}
                \<and> c \<in> {CHR ''o'', CHR ''O''} \<and> d \<in> {CHR ''n'', CHR ''N''}) \<longrightarrow>
          removeAll ciEq ''```json'' (y # ys) = y # removeAll ciEq ''```json'' ys)
   \<and> removeAll (=) ''```'' [] = []
   \<and> (\<forall>rest. removeAll (=) ''```'' (''```'' @ rest) = removeAll (=) ''```'' rest)
   \<and> (\<forall>y ys. \<not> (\<exists>rest. y # ys = ''```'' @ rest) \<longrightarrow>
          removeAll (=) ''```'' (y # ys) = y # removeAll (=) ''```'' ys)
   \<and> (\<exists>pre post. s = pre @ trim s @ post \<and> blank pre \<and> blank post
          \<and> (trim s \<noteq> [] \<longrightarrow> \<not> isWhiteSpace (hd (trim s)) \<and> \<not> isWhiteSpace (last (trim s))))
   \<and> repaired s = removeTrailingCommas CHR '']'' (removeTrailingCommas CHR ''}'' s)
   \<and> (\<forall>close. close \<in> {CHR ''}'', CHR '']''} \<longrightarrow>
          removeTrailingCommas close [] = []
          \<and> (\<forall>ws rest. (\<forall>w \<in> set ws. isWhiteSpace w) \<longrightarrow>
                removeTrailingCommas close (CHR '','' # ws @ close # rest) =
                  close # removeTrailingCommas close rest)
          \<and> (\<forall>c cs. \<not> (c = CHR '','' \<and> (\<exists>ws rest. (\<forall>w \<in> set ws. isWhiteSpace w)
                                                    \<and> cs = ws @ close # rest)) \<longrightarrow>
                removeTrailingCommas close (c # cs) = c # removeTrailingCommas close cs))
   \<and> cleanedText ''```JSON\<newline>[1,]\<newline>```'' = ''[1,]''
   \<and> candidate ''Here: {"a":1} ok'' = ''{"a":1}''
   \<and> candidate ''not json'' = ''not json''
   \<and> repaired ''[1, 2 , ]'' = ''[1, 2 ]''
   \<and> repaired ''{"a":[1,],}'' = ''{"a":[1]}''
   \<and> repaired '',,}'' = '',}''
   \<and> (P ''[1,]'' = None \<longrightarrow>
        parseJSONResponse P ''```JSON\<newline>[1,]\<newline>```'' =
          (case P ''[1]'' of Some v \<Rightarrow> Inr v | None \<Rightarrow> Inl InvalidJson))\<close>
proof -
  have c: \<open>candidate ''```json\<newline>{"a":1,}\<newline>```'' = ''{"a":1,}''\<close>
    by (simp add: parse_defs)
  have r: \<open>repaired ''{"a":1,}'' = ''{"a":1}''\<close>
    by (simp add: parse_defs)
  have nb: \<open>\<not> blank ''```json\<newline>{"a":1,}\<newline>```''\<close>
    by (simp add: blank_def isWhiteSpace_def)
  have ex: \<open>P ''{"a":1,}'' = None \<longrightarrow>
        parseJSONResponse P ''```json\<newline>{"a":1,}\<newline>```'' =
          (case P ''{"a":1}'' of Some v \<Rightarrow> Inr v | None \<Rightarrow> Inl InvalidJson)\<close>
    by (simp only: parseJSONResponse_eq c r nb) simp
  have invalid: "parseJSONResponse P response = Inl InvalidJson \<longleftrightarrow>
        \<not> blank response \<and> P (candidate response) = None
        \<and> P (repaired (candidate response)) = None"
    by (simp add: parseJSONResponse_eq split: option.splits)
  have span: "candidate response = m
          \<and> (\<exists>pre post. cleanedText response = pre @ m @ post \<and> 2 \<le> length m
                \<and> (hd m = CHR ''{'' \<and> last m = CHR ''}'' \<and> CHR ''}'' \<notin> set post
                   \<or> hd m = CHR ''['' \<and> last m = CHR '']'' \<and> CHR '']'' \<notin> set post)
                \<and> (\<forall>p1 c p2. pre = p1 @ c # p2 \<longrightarrow>
                      (c = CHR ''{'' \<longrightarrow> CHR ''}'' \<notin> set (p2 @ m @ post))
                      \<and> (c = CHR ''['' \<longrightarrow> CHR '']'' \<notin> set (p2 @ m @ post))))"
    if "jsonMatch (cleanedText response) = Some m" for m
    using that jsonMatch_Some[OF that] by (simp add: candidate_def)
  have whole: "jsonMatch (cleanedText response) = None \<longrightarrow> candidate response = cleanedText response"
    by (simp add: candidate_def)
  have blank: "blank response \<longrightarrow> parseJSONResponse P response = Inl EmptyInput"
    by (simp add: parseJSONResponse_eq)
  have other: "\<not> blank response \<longrightarrow>
        parseJSONResponse P response =
          (case P (candidate response) of
             Some v \<Rightarrow> Inr v
           | None \<Rightarrow> (case P (repaired (candidate response)) of
                        Some v \<Rightarrow> Inr v
                      | None \<Rightarrow> Inl InvalidJson))"
    by (simp add: parseJSONResponse_eq)
  have nc: "CHR '','' \<notin> set (candidate response) \<longrightarrow> repaired (candidate response) = candidate response"
    by (simp add: repaired_no_comma)
  from span have span': "\<forall>m. jsonMatch (cleanedText response) = Some m \<longrightarrow>
          candidate response = m
          \<and> (\<exists>pre post. cleanedText response = pre @ m @ post \<and> 2 \<le> length m
                \<and> (hd m = CHR ''{'' \<and> last m = CHR ''}'' \<and> CHR ''}'' \<notin> set post
                   \<or> hd m = CHR ''['' \<and> last m = CHR '']'' \<and> CHR '']'' \<notin> set post)
                \<and> (\<forall>p1 c p2. pre = p1 @ c # p2 \<longrightarrow>
                      (c = CHR ''{'' \<longrightarrow> CHR ''}'' \<notin> set (p2 @ m @ post))
                      \<and> (c = CHR ''['' \<longrightarrow> CHR '']'' \<notin> set (p2 @ m @ post))))"
    by blast
  have none: "jsonMatch (cleanedText response) = None \<longleftrightarrow>
        (\<forall>p1 c p2. cleanedText response = p1 @ c # p2 \<longrightarrow>
           (c = CHR ''{'' \<longrightarrow> CHR ''}'' \<notin> set p2) \<and> (c = CHR ''['' \<longrightarrow> CHR '']'' \<notin> set p2))"
    by (rule jsonMatch_None)
  have bl: "blank response \<longleftrightarrow> (\<forall>c \<in> set response. isWhiteSpace c)"
    by (simp add: blank_def)
  have ws: "isWhiteSpace x \<longleftrightarrow>
        x \<in> {CHR 0x09, CHR 0x0A, CHR 0x0B, CHR 0x0C, CHR 0x0D, CHR 0x20, CHR 0xA0}"
    by (simp add: isWhiteSpace_def)
  have cl: "cleanedText response = trim (removeAll (=) ''```'' (removeAll ciEq ''```json'' response))"
    by (simp add: cleanedText_def)
  have j0: "removeAll ciEq ''```json'' [] = []"
    by simp
  have j1: "\<forall>a b c d rest.
          a \<in> {CHR ''j'', CHR ''J''} \<and> b \<in> {CHR ''s'', CHR ''S''}
          \<and> c \<in> {CHR ''o'', CHR ''O''} \<and> d \<in> {CHR ''n'', CHR ''N''} \<longrightarrow>
          removeAll ciEq ''```json'' (''```'' @ a # b # c # d # rest) = removeAll ciEq ''```json'' rest"
    using removeAll_jsonFence_match by blast
  have j2: "\<forall>y ys.
          \<not> (\<exists>a b c d rest. y # ys = ''```'' @ a # b # c # d # rest
                \<and> a \<in> {CHR ''j'', CHR ''J''} \<and> b \<in> {CHR ''s'', CHR ''S''}
                \<and> c \<in> {CHR ''o'', CHR ''O''} \<and> d \<in> {CHR ''n'', CHR ''N''}) \<longrightarrow>
          removeAll ciEq ''```json'' (y # ys) = y # removeAll ciEq ''```json'' ys"
    using removeAll_jsonFence_keep by blast
  have f0: "removeAll (=) ''```'' [] = []"
    by simp
  have f1: "\<forall>rest. removeAll (=) ''```'' (''```'' @ rest) = removeAll (=) ''```'' rest"
    using removeAll_fence_match by blast
  have f2: "\<forall>y ys. \<not> (\<exists>rest. y # ys = ''```'' @ rest) \<longrightarrow>
          removeAll (=) ''```'' (y # ys) = y # removeAll (=) ''```'' ys"
    using removeAll_fence_keep by blast
  have rp: "repaired s = removeTrailingCommas CHR '']'' (removeTrailingCommas CHR ''}'' s)"
    by (simp add: repaired_def)
  have rt: "\<forall>close. close \<in> {CHR ''}'', CHR '']''} \<longrightarrow>
          removeTrailingCommas close [] = []
          \<and> (\<forall>ws rest. (\<forall>w \<in> set ws. isWhiteSpace w) \<longrightarrow>
                removeTrailingCommas close (CHR '','' # ws @ close # rest) =
                  close # removeTrailingCommas close rest)
          \<and> (\<forall>c cs. \<not> (c = CHR '','' \<and> (\<exists>ws rest. (\<forall>w \<in> set ws. isWhiteSpace w)
                                                    \<and> cs = ws @ close # rest)) \<longrightarrow>
                removeTrailingCommas close (c # cs) = c # removeTrailingCommas close cs)"
  proof (intro allI impI)
    fix close :: char
    assume "close \<in> {CHR ''}'', CHR '']''}"
    then have nw: "\<not> isWhiteSpace close"
      using closers_not_white by auto
    have "removeTrailingCommas close [] = []"
      by simp
    moreover have "\<forall>ws rest. (\<forall>w \<in> set ws. isWhiteSpace w) \<longrightarrow>
                removeTrailingCommas close (CHR '','' # ws @ close # rest) =
                  close # removeTrailingCommas close rest"
      using removeTrailingCommas_match[OF nw] by (simp add: blank_def)
    moreover have "\<forall>c cs. \<not> (c = CHR '','' \<and> (\<exists>ws rest. (\<forall>w \<in> set ws. isWhiteSpace w)
                                                    \<and> cs = ws @ close # rest)) \<longrightarrow>
                removeTrailingCommas close (c # cs) = c # removeTrailingCommas close cs"
      using removeTrailingCommas_keep[OF nw] unfolding blank_def by blast
    ultimately show "removeTrailingCommas close [] = []
          \<and> (\<forall>ws rest. (\<forall>w \<in> set ws. isWhiteSpace w) \<longrightarrow>
                removeTrailingCommas close (CHR '','' # ws @ close # rest) =
                  close # removeTrailingCommas close rest)
          \<and> (\<forall>c cs. \<not> (c = CHR '','' \<and> (\<exists>ws rest. (\<forall>w \<in> set ws. isWhiteSpace w)
                                                    \<and> cs = ws @ close # rest)) \<longrightarrow>
                removeTrailingCommas close (c # cs) = c # removeTrailingCommas close cs)"
      by blast
  qed
  have e1: \<open>cleanedText ''```JSON\<newline>[1,]\<newline>```'' = ''[1,]''\<close>
    by (simp add: parse_defs)
  have e2: \<open>candidate ''Here: {"a":1} ok'' = ''{"a":1}''\<close>
    by (simp add: parse_defs)
  have e3: \<open>candidate ''not json'' = ''not json''\<close>
    by (simp add: parse_defs)
  have e4: \<open>repaired ''[1, 2 , ]'' = ''[1, 2 ]''\<close>
    by (simp add: parse_defs)
  have e5: \<open>repaired ''{"a":[1,],}'' = ''{"a":[1]}''\<close>
    by (simp add: parse_defs)
  have e6: \<open>repaired '',,}'' = '',}''\<close>
    by (simp add: parse_defs)
  have c7: \<open>candidate ''```JSON\<newline>[1,]\<newline>```'' = ''[1,]''\<close>
    by (simp add: parse_defs)
  have r7: \<open>repaired ''[1,]'' = ''[1]''\<close>
    by (simp add: parse_defs)
  have nb7: \<open>\<not> blank ''```JSON\<newline>[1,]\<newline>```''\<close>
    by (simp add: blank_def isWhiteSpace_def)
  have e7: \<open>P ''[1,]'' = None \<longrightarrow>
        parseJSONResponse P ''```JSON\<newline>[1,]\<newline>```'' =
          (case P ''[1]'' of Some v \<Rightarrow> Inr v | None \<Rightarrow> Inl InvalidJson)\<close>
    by (simp only: parseJSONResponse_eq c7 r7 nb7) simp
  show ?thesis
    by (intro conjI;
        (rule blank other invalid cleanedText_no_fence candidate_no_fence whole span' nc c r ex
           none bl ws cl j0 j1 j2 f0 f1 f2 trim_spec rp rt e1 e2 e3 e4 e5 e6 e7))
qed

theorem json_extraction_witness:
  \<open>parserOf ''{"a":1}'' (JObj [(''a'', JNum 1)]) ''{"a":1,}'' = None
   \<and> jsonMatch (cleanedText ''```json\<newline>{"a":1,}\<newline>```'') = Some ''{"a":1,}''
   \<and> parseJSONResponse (parserOf ''{"a":1}'' (JObj [(''a'', JNum 1)]))
        ''```json\<newline>{"a":1,}\<newline>```'' = Inr (JObj [(''a'', JNum 1)])
   \<and> parseJSONResponse (parserOf ''{"a":1}'' (JObj [(''a'', JNum 1)]))
        ''Here: {"a":1} ok'' = Inr (JObj [(''a'', JNum 1)])
   \<and> parseJSONResponse (parserOf ''{"a":1}'' (JObj [(''a'', JNum 1)])) ''  '' = Inl EmptyInput
   \<and> parseJSONResponse (parserOf ''{"a":1}'' (JObj [(''a'', JNum 1)])) ''not json'' = Inl InvalidJson\<close>
proof -
  let ?P = \<open>parserOf ''{"a":1}'' (JObj [(''a'', JNum 1)])\<close>
  have b: "blank ''  ''" and nb: "\<not> blank ''not json''" and nh: \<open>\<not> blank ''Here: {"a":1} ok''\<close>
    by (simp_all add: blank_def isWhiteSpace_def)
  have c: "candidate ''not json'' = ''not json''" and r: "repaired ''not json'' = ''not json''"
    and h: \<open>candidate ''Here: {"a":1} ok'' = ''{"a":1}''\<close>
    by (simp_all add: parse_defs)
  have m: \<open>jsonMatch (cleanedText ''```json\<newline>{"a":1,}\<newline>```'') = Some ''{"a":1,}''\<close>
    by (simp add: parse_defs)
  have p: \<open>?P ''{"a":1,}'' = None\<close>
    by (simp add: parserOf_def)
  note fenced = json_extraction[of \<open>''```json\<newline>{"a":1,}\<newline>```''\<close> ?P]
  from fenced p
  have \<open>parseJSONResponse ?P ''```json\<newline>{"a":1,}\<newline>```'' = Inr (JObj [(''a'', JNum 1)])\<close>
    by (simp add: parserOf_def)
  moreover from json_extraction[of \<open>''Here: {"a":1} ok''\<close> ?P, THEN conjunct2, THEN conjunct1] nh
  have \<open>parseJSONResponse ?P ''Here: {"a":1} ok'' = Inr (JObj [(''a'', JNum 1)])\<close>
    by (simp add: h parserOf_def)
  moreover from json_extraction[of "''  ''" ?P, THEN conjunct1] b
  have "parseJSONResponse ?P ''  '' = Inl EmptyInput"
    by blast
  moreover from json_extraction[of "''not json''" ?P, THEN conjunct2, THEN conjunct1] nb
  have "parseJSONResponse ?P ''not json'' = Inl InvalidJson"
    by (simp add: c r parserOf_def)
  ultimately show ?thesis
    using p m by simp
qed

text \<open>C7, as stated, fails: the span selected need not be balanced. In a text with two
  objects the span runs from the first opening brace to the last closing one; the parser is
  never given the first balanced span, and the extraction fails where a parser that accepts
  that span would have succeeded on it.\<close>

theorem selected_span_not_balanced:
  \<open>jsonMatch ''{"a":1} or {"a":2}'' = Some ''{"a":1} or {"a":2}''
   \<and> candidate ''{"a":1} or {"a":2}'' = ''{"a":1} or {"a":2}''
   \<and> \<not> specBalanced ''{"a":1} or {"a":2}''
   \<and> specBalanced ''{"a":1}''
   \<and> parseJSONResponse (parserOf ''{"a":1}'' (JObj [(''a'', JNum 1)])) ''{"a":1} or {"a":2}''
       = Inl InvalidJson\<close>
proof -
  have m: \<open>jsonMatch ''{"a":1} or {"a":2}'' = Some ''{"a":1} or {"a":2}''\<close>
    by (simp add: greedyTo_def)
  have c: \<open>candidate ''{"a":1} or {"a":2}'' = ''{"a":1} or {"a":2}''\<close>
    by (simp add: parse_defs)
  have r: \<open>repaired ''{"a":1} or {"a":2}'' = ''{"a":1} or {"a":2}''\<close>
    by (simp add: repaired_no_comma)
  have nb: \<open>\<not> blank ''{"a":1} or {"a":2}''\<close>
    by (simp add: blank_def isWhiteSpace_def)
  have \<open>parseJSONResponse (parserOf ''{"a":1}'' (JObj [(''a'', JNum 1)])) ''{"a":1} or {"a":2}''
       = Inl InvalidJson\<close>
    by (simp only: parseJSONResponse_eq c r nb) (simp add: parserOf_def)
  with m c show ?thesis
    by (simp add: specBalanced_def)
qed

end
